theory Spec2Isabelle
  imports Main "HOL-Library.AList"
begin

text \<open>
  A model of \<^verbatim>\<open>dagoba.js\<close>: the graph store (\<^verbatim>\<open>Dagoba.G\<close>), the transformer
  registry, the stages (\<^verbatim>\<open>Dagoba.Pipetypes\<close>), the engine (\<^verbatim>\<open>Dagoba.Q.run\<close>) and the
  snapshot functions, each definition under the name of the function it follows.
  Objects that the source shares and mutates (vertices, edges, gremlin states) live in
  arenas and are named by their index; every insertion is passed an object of its own.
  Mutation is state passing, \<^verbatim>\<open>Dagoba.error\<close> and exceptions are values of sum types,
  and a loop that may run forever returns an option.
\<close>

section \<open>JavaScript values\<close>

text \<open>
  The primitive values that occur as vertex ids, edge labels, property values and
  stage arguments. Numbers are the integers and the three numbers that are not finite,
  \<^verbatim>\<open>NaN\<close>, \<^verbatim>\<open>Infinity\<close> and \<^verbatim>\<open>-Infinity\<close>; objects (vertices, edges, gremlin
  states) live in arenas and are named by their index there.
\<close>

datatype jsval =
    Undefined | Null | Bool bool | Num int | NaN | PosInfinity | NegInfinity | Str string

text \<open>\<^verbatim>\<open>!x\<close> is \<open>\<not> truthy x\<close>.\<close>

fun truthy :: "jsval \<Rightarrow> bool" where
  "truthy Undefined = False"
| "truthy Null = False"
| "truthy (Bool b) = b"
| "truthy (Num n) = (n \<noteq> 0)"
| "truthy NaN = False"
| "truthy PosInfinity = True"
| "truthy NegInfinity = True"
| "truthy (Str s) = (s \<noteq> [])"

definition digit :: "nat \<Rightarrow> char" where
  "digit n = ''0123456789'' ! n"

function string_of_nat :: "nat \<Rightarrow> string" where
  "string_of_nat n = (if n < 10 then [digit n] else string_of_nat (n div 10) @ [digit (n mod 10)])"
  by pat_completeness auto
termination
  by (relation "measure id") auto

declare string_of_nat.simps [simp del]

text \<open>String conversion, as a template literal and a property key perform it.\<close>

fun js_string :: "jsval \<Rightarrow> string" where
  "js_string Undefined = ''undefined''"
| "js_string Null = ''null''"
| "js_string (Bool b) = (if b then ''true'' else ''false'')"
| "js_string (Num n) = (if n < 0 then ''-'' @ string_of_nat (nat (- n)) else string_of_nat (nat n))"
| "js_string NaN = ''NaN''"
| "js_string PosInfinity = ''Infinity''"
| "js_string NegInfinity = ''-Infinity''"
| "js_string (Str s) = s"

section \<open>Map\<close>

text \<open>
  A JavaScript \<^verbatim>\<open>Map\<close> keeps its keys in insertion order and \<^verbatim>\<open>set\<close> on a
  present key replaces the value where the key stands: an association list under
  \<^const>\<open>AList.update\<close>.
\<close>

definition Map_has :: "('k \<times> 'v) list \<Rightarrow> 'k \<Rightarrow> bool" where
  "Map_has m k = (map_of m k \<noteq> None)"

definition Map_get :: "('k \<times> 'v) list \<Rightarrow> 'k \<Rightarrow> 'v option" where
  "Map_get m k = map_of m k"

definition Map_set :: "('k \<times> 'v) list \<Rightarrow> 'k \<Rightarrow> 'v \<Rightarrow> ('k \<times> 'v) list" where
  "Map_set m k v = AList.update k v m"

definition Map_values :: "('k \<times> 'v) list \<Rightarrow> 'v list" where
  "Map_values m = map snd m"

section \<open>The graph store\<close>

text \<open>
  A vertex as the caller passes it to \<^verbatim>\<open>addVertex\<close> (\<open>vertex_lit\<close>) and as it is
  stored (\<open>vertex\<close>): the object itself in the source, whose \<^verbatim>\<open>_id\<close>, \<^verbatim>\<open>_out\<close> and
  \<^verbatim>\<open>_in\<close> the call fills in. An absent property reads as \<^verbatim>\<open>undefined\<close>, so the
  properties are a function to values. Adjacency arrays hold edge references.
\<close>

record vertex_lit =
  vl_id :: jsval
  vl_out :: "nat list option"
  vl_in :: "nat list option"
  vl_props :: "string \<Rightarrow> jsval"

record vertex =
  v_id :: jsval
  v_out :: "nat list"
  v_in :: "nat list"
  v_props :: "string \<Rightarrow> jsval"

text \<open>
  An edge as passed to \<^verbatim>\<open>addEdge\<close>, with raw ids at \<^verbatim>\<open>_in\<close> and \<^verbatim>\<open>_out\<close>, and as
  stored, with vertex references there (the source overwrites the two fields in place).
\<close>

record edge_lit =
  el_in :: jsval
  el_out :: jsval
  el_label :: jsval
  el_props :: "string \<Rightarrow> jsval"

record edge =
  e_in :: nat
  e_out :: nat
  e_label :: jsval
  e_props :: "string \<Rightarrow> jsval"

text \<open>
  The graph with the arenas of its vertex and edge objects: a reference is an index
  into \<open>heapV\<close> or \<open>heapE\<close>.
\<close>

record graph =
  heapV :: "vertex list"
  heapE :: "edge list"
  vertices :: "(jsval \<times> nat) list"
  edges :: "(string \<times> nat) list"
  vertexIndex :: "(jsval \<times> nat) list"
  edgeIndex :: "(string \<times> nat) list"
  autoid :: int

text \<open>
  \<^verbatim>\<open>Dagoba.error(msg)\<close> writes \<open>msg\<close> to the console and returns \<^verbatim>\<open>false\<close>: the
  failure signal of an insertion.
\<close>

datatype failure = Reported string

definition Dagoba_error :: "string \<Rightarrow> failure" where
  "Dagoba_error msg = Reported msg"

definition findVertexById :: "graph \<Rightarrow> jsval \<Rightarrow> nat option" where
  "findVertexById g vertex_id = Map_get (vertexIndex g) vertex_id"

text \<open>Lines 47 to 51 of \<^verbatim>\<open>addVertex\<close>: the vertex, its id settled, enters the store.\<close>

definition store_vertex :: "graph \<Rightarrow> vertex_lit \<Rightarrow> (failure + jsval) \<times> graph" where
  "store_vertex g vertex =
     (let v = \<lparr> v_id = vl_id vertex,
                v_out = (case vl_out vertex of Some a \<Rightarrow> a | None \<Rightarrow> []),
                v_in = (case vl_in vertex of Some a \<Rightarrow> a | None \<Rightarrow> []),
                v_props = vl_props vertex \<rparr>;
          r = length (heapV g)
      in (Inr (v_id v),
          g\<lparr> heapV := heapV g @ [v],
             vertices := Map_set (vertices g) (v_id v) r,
             vertexIndex := Map_set (vertexIndex g) (v_id v) r \<rparr>))"

definition addVertex :: "graph \<Rightarrow> vertex_lit \<Rightarrow> (failure + jsval) \<times> graph" where
  "addVertex g vertex =
     (if \<not> truthy (vl_id vertex)
      then store_vertex (g\<lparr> autoid := autoid g + 1 \<rparr>) (vertex\<lparr> vl_id := Num (autoid g) \<rparr>)
      else if Map_has (vertexIndex g) (vl_id vertex)
      then (Inl (Dagoba_error (''A vertex with id '' @ js_string (vl_id vertex) @ '' already exists'')), g)
      else store_vertex g vertex)"

text \<open>\<^verbatim>\<open>addEdge\<close> returns nothing on success (\<open>Inr ()\<close>).\<close>

definition addEdge :: "graph \<Rightarrow> edge_lit \<Rightarrow> (failure + unit) \<times> graph" where
  "addEdge g edge =
     (let inVertex = findVertexById g (el_in edge);
          outVertex = findVertexById g (el_out edge)
      in case (inVertex, outVertex) of
           (Some iv, Some ov) \<Rightarrow>
             (let er = length (heapE g);
                  e = \<lparr> e_in = iv, e_out = ov, e_label = el_label edge, e_props = el_props edge \<rparr>;
                  H1 = (heapV g)[ov := (heapV g ! ov)\<lparr> v_out := v_out (heapV g ! ov) @ [er] \<rparr>];
                  H2 = H1[iv := (H1 ! iv)\<lparr> v_in := v_in (H1 ! iv) @ [er] \<rparr>];
                  edgeId = js_string (v_id (H2 ! ov)) @ ''->'' @ js_string (v_id (H2 ! iv))
                             @ '':'' @ js_string (e_label e)
              in (Inr (),
                  g\<lparr> heapV := H2,
                     heapE := heapE g @ [e],
                     edges := Map_set (edges g) edgeId er,
                     edgeIndex := Map_set (edgeIndex g) edgeId er \<rparr>))
         | _ \<Rightarrow>
             (Inl (Dagoba_error (''That edge's '' @ (if inVertex \<noteq> None then ''out'' else ''in'')
                                   @ '' vertex wasn't found'')), g))"

definition addVertices :: "graph \<Rightarrow> vertex_lit list \<Rightarrow> graph" where
  "addVertices g vs = foldl (\<lambda>g v. snd (addVertex g v)) g vs"

definition addEdges :: "graph \<Rightarrow> edge_lit list \<Rightarrow> graph" where
  "addEdges g es = foldl (\<lambda>g e. snd (addEdge g e)) g es"

definition empty_graph :: graph where
  "empty_graph = \<lparr> heapV = [], heapE = [], vertices = [], edges = [],
                    vertexIndex = [], edgeIndex = [], autoid = 1 \<rparr>"

text \<open>
  \<^verbatim>\<open>Dagoba.graph(V, E)\<close>; an argument that is not an array is \<open>None\<close>.
\<close>

definition Dagoba_graph :: "vertex_lit list option \<Rightarrow> edge_lit list option \<Rightarrow> graph" where
  "Dagoba_graph V E =
     (let g0 = empty_graph;
          g1 = (case V of Some vs \<Rightarrow> addVertices g0 vs | None \<Rightarrow> g0)
      in case E of Some es \<Rightarrow> addEdges g1 es | None \<Rightarrow> g1)"

text \<open>The stores a caller can build: a fresh graph and any insertions after it.\<close>

inductive reachable :: "graph \<Rightarrow> bool" where
  reachable_empty: "reachable empty_graph"
| reachable_addVertex: "reachable g \<Longrightarrow> reachable (snd (addVertex g v))"
| reachable_addEdge: "reachable g \<Longrightarrow> reachable (snd (addEdge g e))"

text \<open>
  What every reachable store satisfies: the two vertex maps (and the two edge maps) agree,
  the counter is at least 1, keys are distinct, every key of the vertex map is a truthy id
  and leads to a vertex of the arena that carries it, every vertex of the arena has its
  id among the keys, and every edge of the arena points into the vertex arena.
\<close>

definition store_inv :: "graph \<Rightarrow> bool" where
  "store_inv g \<longleftrightarrow>
     vertexIndex g = vertices g \<and> edgeIndex g = edges g \<and> 1 \<le> autoid g \<and>
     distinct (map fst (vertices g)) \<and> distinct (map fst (edges g)) \<and>
     (\<forall>k r. map_of (vertices g) k = Some r \<longrightarrow>
        truthy k \<and> r < length (heapV g) \<and> v_id (heapV g ! r) = k) \<and>
     (\<forall>r < length (heapV g). v_id (heapV g ! r) \<in> fst ` set (vertices g)) \<and>
     (\<forall>er < length (heapE g).
        e_in (heapE g ! er) < length (heapV g) \<and> e_out (heapE g ! er) < length (heapV g))"

text \<open>
  The key of a stored edge, from the ids of its endpoints and its label; in a reachable
  store every key of the edge map is the key of the edge it leads to.
\<close>

definition edge_key :: "graph \<Rightarrow> edge \<Rightarrow> string" where
  "edge_key g e = js_string (v_id (heapV g ! e_out e)) @ ''->'' @ js_string (v_id (heapV g ! e_in e))
                    @ '':'' @ js_string (e_label e)"

definition edge_keys_inv :: "graph \<Rightarrow> bool" where
  "edge_keys_inv g \<longleftrightarrow>
     (\<forall>k er. map_of (edges g) k = Some er \<longrightarrow>
        er < length (heapE g) \<and> k = edge_key g (heapE g ! er))"

subsection \<open>The store of the scenarios\<close>

text \<open>
  Vertices \<^verbatim>\<open>{_id:1,name:"a"}\<close> and \<^verbatim>\<open>{_id:2,name:"b"}\<close>, and the edge
  \<^verbatim>\<open>{_out:1,_in:2,_label:"knows"}\<close> from the first to the second.
\<close>

definition vertex_a :: vertex_lit where
  "vertex_a = \<lparr> vl_id = Num 1, vl_out = None, vl_in = None,
                 vl_props = (\<lambda>_. Undefined)(''name'' := Str ''a'') \<rparr>"

definition vertex_b :: vertex_lit where
  "vertex_b = \<lparr> vl_id = Num 2, vl_out = None, vl_in = None,
                 vl_props = (\<lambda>_. Undefined)(''name'' := Str ''b'') \<rparr>"

definition edge_knows :: edge_lit where
  "edge_knows = \<lparr> el_in = Num 2, el_out = Num 1, el_label = Str ''knows'',
                   el_props = (\<lambda>_. Undefined) \<rparr>"

definition scenario_graph :: graph where
  "scenario_graph = Dagoba_graph (Some [vertex_a, vertex_b]) (Some [edge_knows])"

text \<open>A fresh graph after \<^verbatim>\<open>addVertex({_id:1,name:"a"})\<close>.\<close>

definition one_vertex_graph :: graph where
  "one_vertex_graph = snd (addVertex empty_graph vertex_a)"

text \<open>A vertex passed without an id, as \<^verbatim>\<open>{name:"c"}\<close>.\<close>

definition vertex_noid :: vertex_lit where
  "vertex_noid = \<lparr> vl_id = Undefined, vl_out = None, vl_in = None,
                    vl_props = (\<lambda>_. Undefined)(''name'' := Str ''c'') \<rparr>"

text \<open>A vertex passed with the id 0, as \<^verbatim>\<open>{_id:0,name:"z"}\<close>.\<close>

definition vertex_zero :: vertex_lit where
  "vertex_zero = \<lparr> vl_id = Num 0, vl_out = None, vl_in = None,
                    vl_props = (\<lambda>_. Undefined)(''name'' := Str ''z'') \<rparr>"

text \<open>A fresh graph after \<^verbatim>\<open>addVertex({_id:0,name:"z"})\<close>, called twice.\<close>

definition zero_twice_graph :: graph where
  "zero_twice_graph = snd (addVertex (snd (addVertex empty_graph vertex_zero)) vertex_zero)"

text \<open>The ids of the vertices of the vertex map, in its order.\<close>

definition vertex_ids :: "graph \<Rightarrow> jsval list" where
  "vertex_ids g = map (\<lambda>r. v_id (heapV g ! r)) (Map_values (vertices g))"

section \<open>Programs and transformers\<close>

text \<open>
  What reading a property of a vertex or an edge gives, and what a query yields: a
  primitive, an adjacency array, or a vertex.
\<close>

datatype field = Prim jsval | EdgeList "nat list" | VertexRef nat

text \<open>
  A gremlin: its vertex, its \<^verbatim>\<open>state\<close> object (a reference: gremlins share it) and its
  \<^verbatim>\<open>result\<close>, \<^verbatim>\<open>undefined\<close> until a \<^verbatim>\<open>property\<close> stage sets it. A state object has
  at most the field \<^verbatim>\<open>as\<close>, an object from labels to vertices.
\<close>

record gremlin =
  g_vertex :: nat
  g_state :: nat
  g_result :: field

type_synonym gstate = "(string \<Rightarrow> nat option) option"

text \<open>
  A step of a program is \<^verbatim>\<open>[name, args]\<close>. An argument is a primitive, an object of
  primitive properties (a filter; its keys are distinct), an array of primitives, or a
  function: the predicate a \<^verbatim>\<open>filter\<close> stage calls with the vertex and the gremlin,
  here a function of the graph, the gremlin states and the gremlin, given with its source
  text (what a function converts to as a property key).
\<close>

datatype arg =
    AVal jsval
  | AObj "(string \<times> jsval) list"
  | AArr "jsval list"
  | AFun string "graph \<Rightarrow> gstate list \<Rightarrow> gremlin \<Rightarrow> bool"

type_synonym step = "string \<times> arg list"

type_synonym program = "step list"

record transformer =
  t_priority :: int
  t_fun :: "program \<Rightarrow> program"

text \<open>The first argument of \<^verbatim>\<open>addTransformer\<close>: a function, or any other value.\<close>

datatype transformer_arg = Callable "program \<Rightarrow> program" | NotCallable

text \<open>\<^verbatim>\<open>T.splice(i, 0, x)\<close>.\<close>

definition splice_in :: "nat \<Rightarrow> 'a \<Rightarrow> 'a list \<Rightarrow> 'a list" where
  "splice_in i x xs = take i xs @ [x] @ drop i xs"

text \<open>
  The loop of \<^verbatim>\<open>addTransformer\<close>, from index \<open>i\<close> on the registry \<open>T\<close>. It need not
  end: \<open>None\<close> is the loop that runs forever.
\<close>

partial_function (option) addTransformer_loop ::
  "transformer \<Rightarrow> nat \<Rightarrow> transformer list \<Rightarrow> transformer list option" where
  "addTransformer_loop new i T =
     (if i < length T
      then (if t_priority new > t_priority (T ! i) then Some T
            else addTransformer_loop new (Suc i) (splice_in i new T))
      else Some T)"

definition addTransformer ::
  "transformer list \<Rightarrow> transformer_arg \<Rightarrow> int \<Rightarrow> ((failure + unit) \<times> transformer list) option" where
  "addTransformer T f priority =
     (case f of
        NotCallable \<Rightarrow> Some (Inl (Dagoba_error ''Invalid transformer function''), T)
      | Callable fn \<Rightarrow>
          (case addTransformer_loop \<lparr> t_priority = priority, t_fun = fn \<rparr> 0 T of
             None \<Rightarrow> None
           | Some T' \<Rightarrow> Some (Inr (), T')))"

definition transform :: "transformer list \<Rightarrow> program \<Rightarrow> program" where
  "transform T program = foldl (\<lambda>acc transformer. t_fun transformer acc) program T"

text \<open>\<^verbatim>\<open>Dagoba.T = []\<close>: the registry when the module is loaded.\<close>

definition initial_T :: "transformer list" where
  "initial_T = []"

text \<open>A sequence of registrations, each on the registry the one before left.\<close>

fun addTransformers ::
  "transformer list \<Rightarrow> (transformer_arg \<times> int) list \<Rightarrow> transformer list option" where
  "addTransformers T [] = Some T"
| "addTransformers T ((f, priority) # rest) =
     (case addTransformer T f priority of
        None \<Rightarrow> None
      | Some (_, T') \<Rightarrow> addTransformers T' rest)"

section \<open>Lookups in the store\<close>

definition vertex_get :: "vertex \<Rightarrow> string \<Rightarrow> field" where
  "vertex_get v key =
     (if key = ''_id'' then Prim (v_id v)
      else if key = ''_out'' then EdgeList (v_out v)
      else if key = ''_in'' then EdgeList (v_in v)
      else Prim (v_props v key))"

definition edge_get :: "edge \<Rightarrow> string \<Rightarrow> field" where
  "edge_get e key =
     (if key = ''_in'' then VertexRef (e_in e)
      else if key = ''_out'' then VertexRef (e_out e)
      else if key = ''_label'' then Prim (e_label e)
      else Prim (e_props e key))"

text \<open>\<^verbatim>\<open>args[0]\<close>, \<^verbatim>\<open>undefined\<close> on the empty array.\<close>

definition arg0 :: "arg list \<Rightarrow> arg" where
  "arg0 args = (case args of [] \<Rightarrow> AVal Undefined | a # _ \<Rightarrow> a)"

text \<open>\<^verbatim>\<open>typeof x === 'object'\<close>: objects, arrays and \<^verbatim>\<open>null\<close>.\<close>

fun typeof_object :: "arg \<Rightarrow> bool" where
  "typeof_object (AObj _) = True"
| "typeof_object (AArr _) = True"
| "typeof_object (AVal v) = (v = Null)"
| "typeof_object (AFun _ _) = False"

fun arg_truthy :: "arg \<Rightarrow> bool" where
  "arg_truthy (AVal v) = truthy v"
| "arg_truthy _ = True"

text \<open>An array element in \<^verbatim>\<open>Array.prototype.join\<close>.\<close>

definition join_elem :: "jsval \<Rightarrow> string" where
  "join_elem v = (if v = Undefined \<or> v = Null then [] else js_string v)"

fun join_comma :: "string list \<Rightarrow> string" where
  "join_comma [] = []"
| "join_comma [x] = x"
| "join_comma (x # y # ys) = x @ '','' @ join_comma (y # ys)"

text \<open>An argument used as a property key.\<close>

fun arg_key :: "arg \<Rightarrow> string" where
  "arg_key (AVal v) = js_string v"
| "arg_key (AObj _) = ''[object Object]''"
| "arg_key (AArr xs) = join_comma (map join_elem xs)"
| "arg_key (AFun src _) = src"

text \<open>The pairs a \<^verbatim>\<open>for (key in filter)\<close> runs over, with \<^verbatim>\<open>filter[key]\<close>.\<close>

fun filter_entries :: "arg \<Rightarrow> (string \<times> jsval) list" where
  "filter_entries (AObj kvs) = kvs"
| "filter_entries (AArr xs) = zip (map string_of_nat [0..<length xs]) xs"
| "filter_entries (AVal (Str s)) = zip (map string_of_nat [0..<length s]) (map (\<lambda>c. Str [c]) s)"
| "filter_entries (AVal _) = []"
| "filter_entries (AFun _ _) = []"

text \<open>
  \<^verbatim>\<open>x === v\<close> for a primitive \<open>v\<close>: the same primitive, and \<^verbatim>\<open>NaN\<close> equals nothing.
  (The keys of a \<^verbatim>\<open>Map\<close>, the members of a \<^verbatim>\<open>Set\<close> and \<^verbatim>\<open>includes\<close> compare
  \<^verbatim>\<open>NaN\<close> equal to itself: equality of \<open>jsval\<close>.)
\<close>

definition strict_equal :: "field \<Rightarrow> jsval \<Rightarrow> bool" where
  "strict_equal x v = (x = Prim v \<and> v \<noteq> NaN)"

definition objectFilter :: "(string \<Rightarrow> field) \<Rightarrow> arg \<Rightarrow> bool" where
  "objectFilter thing flt = list_all (\<lambda>(key, v). strict_equal (thing key) v) (filter_entries flt)"

definition searchVertices :: "graph \<Rightarrow> arg \<Rightarrow> nat list" where
  "searchVertices g flt =
     filter (\<lambda>r. objectFilter (vertex_get (heapV g ! r)) flt) (Map_values (vertices g))"

text \<open>\<^verbatim>\<open>findVertexById\<close> on an argument: no object or function is a key of the index.\<close>

definition findVertexByArg :: "graph \<Rightarrow> arg \<Rightarrow> nat option" where
  "findVertexByArg g a = (case a of AVal v \<Rightarrow> findVertexById g v | _ \<Rightarrow> None)"

definition findVerticesByIds :: "graph \<Rightarrow> arg list \<Rightarrow> nat list" where
  "findVerticesByIds g ids =
     (if length ids = 1
      then (case findVertexByArg g (ids ! 0) of Some vertex \<Rightarrow> [vertex] | None \<Rightarrow> [])
      else List.map_filter (findVertexByArg g) ids)"

definition findVertices :: "graph \<Rightarrow> arg list \<Rightarrow> nat list" where
  "findVertices g args =
     (if typeof_object (arg0 args) then searchVertices g (arg0 args)
      else if length args = 0 then Map_values (vertices g)
      else findVerticesByIds g args)"

definition findOutEdges :: "graph \<Rightarrow> nat \<Rightarrow> nat list" where
  "findOutEdges g vertex = v_out (heapV g ! vertex)"

definition findInEdges :: "graph \<Rightarrow> nat \<Rightarrow> nat list" where
  "findInEdges g vertex = v_in (heapV g ! vertex)"

definition filterEdges :: "graph \<Rightarrow> arg \<Rightarrow> nat \<Rightarrow> bool" where
  "filterEdges g flt edge =
     (if \<not> arg_truthy flt then True
      else case flt of
             AVal (Str s) \<Rightarrow> e_label (heapE g ! edge) = Str s
           | AArr xs \<Rightarrow> e_label (heapE g ! edge) \<in> set xs
           | _ \<Rightarrow> objectFilter (edge_get (heapE g ! edge)) flt)"


section \<open>Stages\<close>

text \<open>
  What a stage returns: a gremlin, \<^verbatim>\<open>false\<close> (or \<^verbatim>\<open>undefined\<close>), \<^verbatim>\<open>'pull'\<close> or
  \<^verbatim>\<open>'done'\<close>.
\<close>

datatype signal = Emit gremlin | NoValue | Pull | Done

text \<open>
  The state object of a program position, with the fields the built-in stages keep in
  it; \<open>None\<close> is a field not set.
\<close>

record stage_state =
  st_vertices :: "nat list option"
  st_edges :: "nat list option"
  st_gremlin :: "gremlin option"
  st_visited :: "jsval set option"
  st_taken :: "int option"

definition empty_state :: stage_state where
  "empty_state = \<lparr> st_vertices = None, st_edges = None, st_gremlin = None,
                    st_visited = None, st_taken = None \<rparr>"

text \<open>An exception thrown by the runtime.\<close>

datatype error = TypeError string

text \<open>
  A stage takes the graph, its arguments, the incoming gremlin (\<open>None\<close> for \<^verbatim>\<open>false\<close>),
  its state object and the gremlin states; it returns its signal with the state object
  and the gremlin states as it left them, or throws.
\<close>

type_synonym pipetype =
  "graph \<Rightarrow> arg list \<Rightarrow> gremlin option \<Rightarrow> stage_state \<Rightarrow> gstate list
     \<Rightarrow> error + (signal \<times> stage_state \<times> gstate list)"

text \<open>\<^verbatim>\<open>Object.create(null)\<close> for a gremlin state.\<close>

definition new_state :: "gstate list \<Rightarrow> nat \<times> gstate list" where
  "new_state H = (length H, H @ [None])"

text \<open>\<^verbatim>\<open>makeGremlin(vertex, state)\<close>; \<open>None\<close> is a falsy \<open>state\<close>.\<close>

definition makeGremlin :: "nat \<Rightarrow> nat option \<Rightarrow> gstate list \<Rightarrow> gremlin \<times> gstate list" where
  "makeGremlin vertex state H =
     (case state of
        Some s \<Rightarrow> (\<lparr> g_vertex = vertex, g_state = s, g_result = Prim Undefined \<rparr>, H)
      | None \<Rightarrow> (let (s, H') = new_state H
                 in (\<lparr> g_vertex = vertex, g_state = s, g_result = Prim Undefined \<rparr>, H')))"

definition gotoVertex :: "gremlin \<Rightarrow> nat \<Rightarrow> gstate list \<Rightarrow> gremlin \<times> gstate list" where
  "gotoVertex gr vertex H = makeGremlin vertex (Some (g_state gr)) H"

definition fauxPipetype :: pipetype where
  "fauxPipetype g args maybeGremlin state H =
     Inr (case maybeGremlin of Some gr \<Rightarrow> Emit gr | None \<Rightarrow> Pull, state, H)"

definition vertex_pipetype :: pipetype where
  "vertex_pipetype g args maybeGremlin state H =
     (let vs = (case st_vertices state of None \<Rightarrow> findVertices g args | Some vs \<Rightarrow> vs);
          state1 = state\<lparr> st_vertices := Some vs \<rparr>
      in if vs = [] then Inr (Done, state1, H)
         else (let vertex = last vs;
                   state2 = state1\<lparr> st_vertices := Some (butlast vs) \<rparr>;
                   (s, H1) = (case maybeGremlin of Some gr \<Rightarrow> (g_state gr, H) | None \<Rightarrow> new_state H);
                   (gr', H2) = makeGremlin vertex (Some s) H1
               in Inr (Emit gr', state2, H2)))"

text \<open>
  \<^verbatim>\<open>simpleTraversal(dir)\<close>. \<open>pending\<close> is \<^verbatim>\<open>state.edges && state.edges.length\<close>.
\<close>

definition simpleTraversal :: "string \<Rightarrow> pipetype" where
  "simpleTraversal dir g args maybeGremlin state H =
     (let find_method = (if dir = ''out'' then findOutEdges else findInEdges);
          edge_list = (if dir = ''out'' then e_in else e_out);
          pending = (case st_edges state of None \<Rightarrow> False | Some es \<Rightarrow> es \<noteq> [])
      in if maybeGremlin = None \<and> \<not> pending then Inr (Pull, state, H)
         else (let state1 =
                     (if \<not> pending
                      then (case maybeGremlin of
                              Some gr \<Rightarrow>
                                state\<lparr> st_gremlin := Some gr,
                                       st_edges := Some (filter (filterEdges g (arg0 args))
                                                          (find_method g (g_vertex gr))) \<rparr>
                            | None \<Rightarrow> state)
                      else state);
                   es = (case st_edges state1 of None \<Rightarrow> [] | Some es \<Rightarrow> es)
               in if es = [] then Inr (Pull, state1, H)
                  else (let vertex = edge_list (heapE g ! last es);
                            state2 = state1\<lparr> st_edges := Some (butlast es) \<rparr>
                        in case st_gremlin state2 of
                             None \<Rightarrow> Inl (TypeError ''Cannot read properties of undefined (reading 'state')'')
                           | Some sg \<Rightarrow>
                               (let (gr', H') = gotoVertex sg vertex H
                                in Inr (Emit gr', state2, H')))))"

text \<open>\<^verbatim>\<open>x == null\<close>.\<close>

definition is_nullish :: "field \<Rightarrow> bool" where
  "is_nullish x = (x = Prim Undefined \<or> x = Prim Null)"

definition property_pipetype :: pipetype where
  "property_pipetype g args maybeGremlin state H =
     (case maybeGremlin of
        None \<Rightarrow> Inr (Pull, state, H)
      | Some gr \<Rightarrow>
          (let gr' = gr\<lparr> g_result := vertex_get (heapV g ! g_vertex gr) (arg_key (arg0 args)) \<rparr>
           in Inr (if is_nullish (g_result gr') then NoValue else Emit gr', state, H)))"

definition unique_pipetype :: pipetype where
  "unique_pipetype g args maybeGremlin state H =
     (case maybeGremlin of
        None \<Rightarrow> Inr (Pull, state, H)
      | Some gr \<Rightarrow>
          (let visited = (case st_visited state of None \<Rightarrow> {} | Some S \<Rightarrow> S);
               state1 = state\<lparr> st_visited := Some visited \<rparr>
           in if v_id (heapV g ! g_vertex gr) \<in> visited then Inr (Pull, state1, H)
              else Inr (Emit gr,
                        state1\<lparr> st_visited := Some (insert (v_id (heapV g ! g_vertex gr)) visited) \<rparr>,
                        H)))"

text \<open>
  The \<^verbatim>\<open>filter\<close> stage. An argument that is neither an object nor a function is
  reported to the console and the gremlin passes.
\<close>

definition filter_pipetype :: pipetype where
  "filter_pipetype g args maybeGremlin state H =
     (case maybeGremlin of
        None \<Rightarrow> Inr (Pull, state, H)
      | Some gr \<Rightarrow>
          (if typeof_object (arg0 args)
           then Inr (if objectFilter (vertex_get (heapV g ! g_vertex gr)) (arg0 args)
                     then Emit gr else Pull, state, H)
           else case arg0 args of
                  AFun src f \<Rightarrow> Inr (if \<not> f g H gr then Pull else Emit gr, state, H)
                | _ \<Rightarrow> Inr (Emit gr, state, H)))"

definition take_pipetype :: pipetype where
  "take_pipetype g args maybeGremlin state H =
     (let taken = (case st_taken state of None \<Rightarrow> 0 | Some n \<Rightarrow> n);
          state1 = state\<lparr> st_taken := Some taken \<rparr>
      in if (case arg0 args of AVal (Num n) \<Rightarrow> n = taken | _ \<Rightarrow> False)
         then Inr (Done, state1\<lparr> st_taken := Some 0 \<rparr>, H)
         else case maybeGremlin of
                None \<Rightarrow> Inr (Pull, state1, H)
              | Some gr \<Rightarrow> Inr (Emit gr, state1\<lparr> st_taken := Some (taken + 1) \<rparr>, H))"

text \<open>\<^verbatim>\<open>gremlin.state.as\<close>, an object without entries when the field is not set.\<close>

definition as_of :: "gstate \<Rightarrow> string \<Rightarrow> nat option" where
  "as_of s = (case s of None \<Rightarrow> (\<lambda>_. None) | Some m \<Rightarrow> m)"

definition as_pipetype :: pipetype where
  "as_pipetype g args maybeGremlin state H =
     (case maybeGremlin of
        None \<Rightarrow> Inr (Pull, state, H)
      | Some gr \<Rightarrow>
          Inr (Emit gr, state,
               H[g_state gr := Some ((as_of (H ! g_state gr))(arg_key (arg0 args) := Some (g_vertex gr)))]))"

definition back_pipetype :: pipetype where
  "back_pipetype g args maybeGremlin state H =
     (case maybeGremlin of
        None \<Rightarrow> Inr (Pull, state, H)
      | Some gr \<Rightarrow>
          (let label = arg_key (arg0 args);
               targetVertex = (case H ! g_state gr of None \<Rightarrow> None | Some m \<Rightarrow> m label)
           in case targetVertex of
                None \<Rightarrow> Inr (Pull, state, H)
              | Some t \<Rightarrow> (let (gr', H') = gotoVertex gr t H in Inr (Emit gr', state, H'))))"

definition except_pipetype :: pipetype where
  "except_pipetype g args maybeGremlin state H =
     (case maybeGremlin of
        None \<Rightarrow> Inr (Pull, state, H)
      | Some gr \<Rightarrow>
          (let label = arg_key (arg0 args);
               exceptVertex = (case H ! g_state gr of None \<Rightarrow> None | Some m \<Rightarrow> m label)
           in if Some (g_vertex gr) = exceptVertex then Inr (Pull, state, H)
              else Inr (Emit gr, state, H)))"

text \<open>
  The \<^verbatim>\<open>merge\<close> stage. An array, empty or not, is truthy: \<^verbatim>\<open>!state.vertices\<close> holds
  only while the field is not set. With no gremlin, \<^verbatim>\<open>gremlin.state.as\<close> throws and
  \<^verbatim>\<open>makeGremlin(vertex, gremlin.state)\<close> gets \<^verbatim>\<open>undefined\<close> for the state.
\<close>

definition merge_pipetype :: pipetype where
  "merge_pipetype g args maybeGremlin state H =
     (if st_vertices state = None \<and> maybeGremlin = None then Inr (Pull, state, H)
      else case (if st_vertices state = None \<or> st_vertices state = Some []
                 then (case maybeGremlin of
                         None \<Rightarrow> Inl (TypeError ''Cannot read properties of undefined (reading 'as')'')
                       | Some gr \<Rightarrow>
                           Inr (state\<lparr> st_vertices :=
                                  Some (List.map_filter (\<lambda>id. as_of (H ! g_state gr) (arg_key id)) args) \<rparr>))
                 else Inr state) of
             Inl e \<Rightarrow> Inl e
           | Inr state1 \<Rightarrow>
               (let vs = (case st_vertices state1 of None \<Rightarrow> [] | Some vs \<Rightarrow> vs)
                in if vs = [] then Inr (Pull, state1, H)
                   else (let vertex = last vs;
                             state2 = state1\<lparr> st_vertices := Some (butlast vs) \<rparr>;
                             (gr', H') = makeGremlin vertex (map_option g_state maybeGremlin) H
                         in Inr (Emit gr', state2, H'))))"

text \<open>\<^verbatim>\<open>Dagoba.Pipetypes\<close> when the module is loaded.\<close>

definition Pipetypes :: "string \<Rightarrow> pipetype option" where
  "Pipetypes name =
     (if name = ''vertex'' then Some vertex_pipetype
      else if name = ''in'' then Some (simpleTraversal ''in'')
      else if name = ''out'' then Some (simpleTraversal ''out'')
      else if name = ''property'' then Some property_pipetype
      else if name = ''unique'' then Some unique_pipetype
      else if name = ''filter'' then Some filter_pipetype
      else if name = ''take'' then Some take_pipetype
      else if name = ''as'' then Some as_pipetype
      else if name = ''back'' then Some back_pipetype
      else if name = ''except'' then Some except_pipetype
      else if name = ''merge'' then Some merge_pipetype
      else None)"

text \<open>An unknown name is reported to the console and runs as \<^verbatim>\<open>fauxPipetype\<close>.\<close>

definition getPipetype :: "string \<Rightarrow> pipetype" where
  "getPipetype name = (case Pipetypes name of Some pipetype \<Rightarrow> pipetype | None \<Rightarrow> fauxPipetype)"


section \<open>Queries and the engine\<close>

text \<open>
  A query: its graph, the state objects of the program positions (the array
  \<^verbatim>\<open>this.state\<close>, a position without an object being \<open>None\<close>), its program, and the
  gremlin states allocated on its behalf.
\<close>

record query =
  q_graph :: graph
  q_state :: "nat \<Rightarrow> stage_state option"
  q_program :: program
  q_heap :: "gstate list"

definition Dagoba_query :: "graph \<Rightarrow> query" where
  "Dagoba_query g = \<lparr> q_graph = g, q_state = (\<lambda>_. None), q_program = [], q_heap = [] \<rparr>"

definition add :: "query \<Rightarrow> string \<Rightarrow> arg list \<Rightarrow> query" where
  "add q pipetype args = q\<lparr> q_program := q_program q @ [(pipetype, args)] \<rparr>"

text \<open>\<^verbatim>\<open>graph.v(...)\<close>.\<close>

definition G_v :: "graph \<Rightarrow> arg list \<Rightarrow> query" where
  "G_v g args = add (Dagoba_query g) ''vertex'' args"

text \<open>
  The variables of the loop in \<^verbatim>\<open>Q.run\<close>, with the results yielded so far. \<open>m_log\<close> is
  not a variable of the source: it records each stage call, as the position and the
  signal returned.
\<close>

record machine =
  m_pc :: int
  m_done :: int
  m_maybeGremlin :: "gremlin option"
  m_state :: "nat \<Rightarrow> stage_state option"
  m_heap :: "gstate list"
  m_results :: "field list"
  m_log :: "(nat \<times> signal) list"

text \<open>
  Lines 180 to 188: \<^verbatim>\<open>pc++\<close>, and past the last stage the gremlin, if there is one,
  is yielded (its \<^verbatim>\<open>result\<close> unless that is \<^verbatim>\<open>null\<close> or \<^verbatim>\<open>undefined\<close>).
\<close>

definition next_stage :: "int \<Rightarrow> machine \<Rightarrow> machine" where
  "next_stage mx m =
     (let pc = m_pc m + 1
      in if pc > mx
         then m\<lparr> m_pc := pc - 1, m_maybeGremlin := None,
                 m_results := m_results m @
                   (case m_maybeGremlin m of
                      None \<Rightarrow> []
                    | Some gr \<Rightarrow> [if \<not> is_nullish (g_result gr) then g_result gr
                                  else VertexRef (g_vertex gr)]) \<rparr>
         else m\<lparr> m_pc := pc \<rparr>)"

text \<open>Lines 165 to 188: what the loop does with the signal of the stage.\<close>

definition dispatch :: "int \<Rightarrow> signal \<Rightarrow> machine \<Rightarrow> machine" where
  "dispatch mx sig m =
     (case sig of
        Pull \<Rightarrow>
          (if m_pc m - 1 > m_done m then m\<lparr> m_maybeGremlin := None, m_pc := m_pc m - 1 \<rparr>
           else next_stage mx (m\<lparr> m_maybeGremlin := None, m_done := m_pc m \<rparr>))
      | Done \<Rightarrow> next_stage mx (m\<lparr> m_maybeGremlin := None, m_done := m_pc m \<rparr>)
      | Emit gr \<Rightarrow> next_stage mx (m\<lparr> m_maybeGremlin := Some gr \<rparr>)
      | NoValue \<Rightarrow> next_stage mx (m\<lparr> m_maybeGremlin := None \<rparr>))"

text \<open>
  One turn of the loop, lines 159 to 188. A position outside the program has no step,
  and reading its name throws.
\<close>

definition run_step :: "graph \<Rightarrow> program \<Rightarrow> machine \<Rightarrow> error + machine" where
  "run_step g program m =
     (if m_pc m < 0 \<or> m_pc m \<ge> int (length program)
      then Inl (TypeError ''Cannot read properties of undefined (reading '0')'')
      else (let pc = nat (m_pc m);
                step = program ! pc;
                state = (case m_state m pc of Some st \<Rightarrow> st | None \<Rightarrow> empty_state);
                pipetype = getPipetype (fst step)
            in case pipetype g (snd step) (m_maybeGremlin m) state (m_heap m) of
                 Inl e \<Rightarrow> Inl e
               | Inr (sig, state', H') \<Rightarrow>
                   Inr (dispatch (int (length program) - 1) sig
                          (m\<lparr> m_state := (m_state m)(pc := Some state'), m_heap := H',
                              m_log := m_log m @ [(pc, sig)] \<rparr>))))"

text \<open>
  The loop \<^verbatim>\<open>while (done < max)\<close>. It returns the machine at the exit, or the exception
  with the machine before the turn that threw; \<open>None\<close> is the loop that runs forever.
\<close>

partial_function (option) run_loop ::
  "graph \<Rightarrow> program \<Rightarrow> machine \<Rightarrow> (error option \<times> machine) option" where
  "run_loop g program m =
     (if m_done m < int (length program) - 1
      then (case run_step g program m of
              Inl e \<Rightarrow> Some (Some e, m)
            | Inr m' \<Rightarrow> run_loop g program m')
      else Some (None, m))"

text \<open>The first \<open>n\<close> turns of the same loop.\<close>

fun run_turns :: "graph \<Rightarrow> program \<Rightarrow> nat \<Rightarrow> machine \<Rightarrow> error option \<times> machine" where
  "run_turns g program 0 m = (None, m)"
| "run_turns g program (Suc n) m =
     (if m_done m < int (length program) - 1
      then (case run_step g program m of
              Inl e \<Rightarrow> (Some e, m)
            | Inr m' \<Rightarrow> run_turns g program n m')
      else (None, m))"

text \<open>The variables as \<^verbatim>\<open>Q.run\<close> sets them before the loop.\<close>

definition start :: "query \<Rightarrow> program \<Rightarrow> machine" where
  "start q program =
     \<lparr> m_pc = int (length program) - 1, m_done = - 1, m_maybeGremlin = None,
       m_state = q_state q, m_heap = q_heap q, m_results = [], m_log = [] \<rparr>"

text \<open>
  \<^verbatim>\<open>Q.run\<close>, consumed to its end, under the transformer registry \<open>T\<close>: the values
  yielded in order, the exception that ended the run if one did, and the query as the
  run left it.
\<close>

definition run :: "transformer list \<Rightarrow> query \<Rightarrow> (field list \<times> error option \<times> query) option" where
  "run T q =
     (let program = transform T (q_program q)
      in case run_loop (q_graph q) program (start q program) of
           None \<Rightarrow> None
         | Some (e, m) \<Rightarrow>
             Some (m_results m, e,
                   q\<lparr> q_program := program, q_state := m_state m, q_heap := m_heap m \<rparr>))"

text \<open>What the consumer of a run sees: the values yielded and the exception, if any.\<close>

definition observed ::
  "(field list \<times> error option \<times> query) option \<Rightarrow> (field list \<times> error option) option" where
  "observed r = map_option (\<lambda>(results, e, q). (results, e)) r"

text \<open>
  The calls of the stages during a run consumed to its end, in order: the position called
  and what the stage returned.
\<close>

definition run_log :: "transformer list \<Rightarrow> query \<Rightarrow> (nat \<times> signal) list option" where
  "run_log T q =
     (let program = transform T (q_program q)
      in case run_loop (q_graph q) program (start q program) of
           None \<Rightarrow> None
         | Some (e, m) \<Rightarrow> Some (m_log m))"

text \<open>
  The vertex that each gremlin state object holds under the label \<open>label\<close> of an \<^verbatim>\<open>as\<close>
  stage, after a run.
\<close>

definition checkpoints ::
  "string \<Rightarrow> (field list \<times> error option \<times> query) option \<Rightarrow> nat option list option" where
  "checkpoints label r = map_option (\<lambda>(results, e, q). map (\<lambda>s. as_of s label) (q_heap q)) r"

text \<open>The gremlins a position has emitted, from the log.\<close>

definition emitted_at :: "nat \<Rightarrow> (nat \<times> signal) list \<Rightarrow> gremlin list" where
  "emitted_at pos log =
     List.map_filter (\<lambda>(pc, sig). case sig of Emit gr \<Rightarrow> (if pc = pos then Some gr else None)
                                              | _ \<Rightarrow> None) log"


text \<open>The ids a \<^verbatim>\<open>unique\<close> stage has in \<^verbatim>\<open>state.visited\<close>.\<close>

definition visited_of :: "stage_state option \<Rightarrow> jsval set" where
  "visited_of st = (case st of None \<Rightarrow> {} | Some s \<Rightarrow> (case st_visited s of None \<Rightarrow> {} | Some S \<Rightarrow> S))"

definition gremlin_id :: "graph \<Rightarrow> gremlin \<Rightarrow> jsval" where
  "gremlin_id g gr = v_id (heapV g ! g_vertex gr)"

subsection \<open>The queries of the scenarios\<close>

text \<open>Scenario B: \<^verbatim>\<open>g.v().property('name')\<close>.\<close>

definition query_names :: query where
  "query_names = add (G_v scenario_graph []) ''property'' [AVal (Str ''name'')]"

text \<open>Scenario C: \<^verbatim>\<open>g.v(1).as('start').out('knows').back('start')\<close>.\<close>

definition query_round_trip :: query where
  "query_round_trip =
     add (add (add (G_v scenario_graph [AVal (Num 1)]) ''as'' [AVal (Str ''start'')])
            ''out'' [AVal (Str ''knows'')])
       ''back'' [AVal (Str ''start'')]"

text \<open>\<^verbatim>\<open>g.v(1).as('a').merge('a')\<close>.\<close>

definition query_merge :: query where
  "query_merge = add (add (G_v scenario_graph [AVal (Num 1)]) ''as'' [AVal (Str ''a'')])
                   ''merge'' [AVal (Str ''a'')]"

text \<open>\<^verbatim>\<open>g.v(1, 1).unique()\<close>: vertex 1 arrives at the \<^verbatim>\<open>unique\<close> stage twice.\<close>

definition query_unique :: query where
  "query_unique = add (G_v scenario_graph [AVal (Num 1), AVal (Num 1)]) ''unique'' []"


section \<open>Snapshots\<close>



text \<open>
  What \<^verbatim>\<open>JSON.parse\<close> reads back where \<^verbatim>\<open>JSON.stringify\<close> wrote a primitive: the
  primitive itself, but \<^verbatim>\<open>null\<close> for a number that is not finite. A key whose value is
  \<^verbatim>\<open>undefined\<close> is left out of the text and reads as \<^verbatim>\<open>undefined\<close>.
\<close>

fun json_prim :: "jsval \<Rightarrow> jsval" where
  "json_prim NaN = Null"
| "json_prim PosInfinity = Null"
| "json_prim NegInfinity = Null"
| "json_prim v = v"

text \<open>
  Where a snapshot leaves this model. When the replacer returns an array or an object,
  \<^verbatim>\<open>JSON.stringify\<close> goes into it, and either writes it out or throws on a cycle:
  \<open>NestedValue\<close>. When the text gives a vertex a truthy primitive at \<^verbatim>\<open>_out\<close> or
  \<^verbatim>\<open>_in\<close>, \<^verbatim>\<open>addVertex\<close> keeps it where an adjacency array is expected:
  \<open>AdjacencyNotArray\<close>.
\<close>

datatype outside = NestedValue | AdjacencyNotArray

fun is_prim :: "field \<Rightarrow> bool" where
  "is_prim (Prim p) = True"
| "is_prim (EdgeList es) = False"
| "is_prim (VertexRef r) = False"

fun the_prim :: "field \<Rightarrow> jsval" where
  "the_prim (Prim p) = p"

text \<open>
  An object is given by what reading each key gives, here after the replacer. It is
  \<open>flat\<close> when that is a primitive at every key.
\<close>

definition flat :: "(string \<Rightarrow> field) \<Rightarrow> bool" where
  "flat obj \<longleftrightarrow> (\<forall>key. is_prim (obj key))"

text \<open>
  The text of an object is represented by the object \<^verbatim>\<open>JSON.parse\<close> makes of it, given
  by what reading each key gives.
\<close>

type_synonym json_object = "string \<Rightarrow> jsval"

definition json_of :: "(string \<Rightarrow> field) \<Rightarrow> outside + json_object" where
  "json_of obj = (if flat obj then Inr (\<lambda>key. json_prim (the_prim (obj key))) else Inl NestedValue)"






text \<open>
  A vertex object of the text as \<^verbatim>\<open>addVertex\<close> takes it: a falsy \<^verbatim>\<open>_out\<close> or \<^verbatim>\<open>_in\<close>
  (a key left out, too) is one that \<^verbatim>\<open>addVertex\<close> replaces by an empty array. An edge
  object of the text has the ids of its endpoints at \<^verbatim>\<open>_in\<close> and \<^verbatim>\<open>_out\<close>.
\<close>

definition parsed_vertex :: "json_object \<Rightarrow> outside + vertex_lit" where
  "parsed_vertex obj =
     (if truthy (obj ''_out'') \<or> truthy (obj ''_in'') then Inl AdjacencyNotArray
      else Inr \<lparr> vl_id = obj ''_id'', vl_out = None, vl_in = None, vl_props = obj \<rparr>)"




subsection \<open>A store with a property that is not finite\<close>




section \<open>Predicates of the properties\<close>

text \<open>
  Edge endpoint integrity: every edge of the edge index has both endpoints among the
  vertices of the vertex index, and among these vertices it stands once in the
  out-adjacency of its source, once in the in-adjacency of its target, and in no other
  adjacency list.
\<close>

definition edge_integrity :: "graph \<Rightarrow> bool" where
  "edge_integrity g =
     list_all (\<lambda>(key, er).
        e_out (heapE g ! er) \<in> set (Map_values (vertexIndex g)) \<and>
        e_in (heapE g ! er) \<in> set (Map_values (vertexIndex g)) \<and>
        list_all (\<lambda>r. count_list (v_out (heapV g ! r)) er = (if r = e_out (heapE g ! er) then 1 else 0)
                     \<and> count_list (v_in (heapV g ! r)) er = (if r = e_in (heapE g ! er) then 1 else 0))
          (Map_values (vertexIndex g)))
       (edgeIndex g)"

text \<open>The store of the scenarios after one more vertex, passed without an id.\<close>

definition collided_graph :: graph where
  "collided_graph = snd (addVertex scenario_graph vertex_noid)"











text \<open>
  The stores built by insertions in which every vertex is passed without \<^verbatim>\<open>_out\<close> and
  \<^verbatim>\<open>_in\<close>, and a vertex without an id only while the counter is not an indexed id.
\<close>

inductive clean_reachable :: "graph \<Rightarrow> bool" where
  clean_empty: "clean_reachable empty_graph"
| clean_addVertex:
    "clean_reachable g \<Longrightarrow> vl_out v = None \<Longrightarrow> vl_in v = None
     \<Longrightarrow> truthy (vl_id v) \<or> \<not> Map_has (vertexIndex g) (Num (autoid g))
     \<Longrightarrow> clean_reachable (snd (addVertex g v))"
| clean_addEdge: "clean_reachable g \<Longrightarrow> clean_reachable (snd (addEdge g e))"

text \<open>
  The vertices of the index are those of the arena; adjacency arrays hold edges of the
  arena; and each edge of the arena stands once in the out-adjacency of its source, once
  in the in-adjacency of its target, and nowhere else.
\<close>

definition adjacency_inv :: "graph \<Rightarrow> bool" where
  "adjacency_inv g \<longleftrightarrow>
     set (Map_values (vertexIndex g)) = {0..<length (heapV g)} \<and>
     (\<forall>r < length (heapV g). \<forall>er \<in> set (v_out (heapV g ! r)) \<union> set (v_in (heapV g ! r)).
        er < length (heapE g)) \<and>
     (\<forall>er < length (heapE g). \<forall>r < length (heapV g).
        count_list (v_out (heapV g ! r)) er = (if r = e_out (heapE g ! er) then 1 else 0) \<and>
        count_list (v_in (heapV g ! r)) er = (if r = e_in (heapE g ! er) then 1 else 0))"

text \<open>
  What the \<^verbatim>\<open>unique\<close> stage at position \<open>pos\<close> keeps true of a machine: the gremlins it
  has emitted have pairwise different vertex ids, all of them in its \<^verbatim>\<open>visited\<close> set.
\<close>

definition unique_inv :: "graph \<Rightarrow> nat \<Rightarrow> machine \<Rightarrow> bool" where
  "unique_inv g pos m \<longleftrightarrow>
     distinct (map (gremlin_id g) (emitted_at pos (m_log m))) \<and>
     set (map (gremlin_id g) (emitted_at pos (m_log m))) \<subseteq> visited_of (m_state m pos)"


section \<open>Properties of the graph store\<close>

lemma keys_update: "fst ` set (AList.update k v al) = insert k (fst ` set al)"
  by (induct al) auto

lemma Map_has_keys: "Map_has m k \<longleftrightarrow> k \<in> fst ` set m"
  by (simp add: Map_has_def map_of_eq_None_iff)

lemma store_inv_empty: "store_inv empty_graph"
  by (simp add: store_inv_def empty_graph_def)

lemma store_inv_store_vertex:
  assumes "store_inv g" "truthy (vl_id v)"
  shows "store_inv (snd (store_vertex g v))"
  using assms
  apply (simp add: store_inv_def store_vertex_def Let_def Map_set_def distinct_update update_conv' nth_append)
  apply (intro conjI allI impI)
  apply (auto simp: nth_append less_Suc_eq keys_update)
  done

lemma store_inv_autoid: "store_inv g \<Longrightarrow> 1 \<le> n \<Longrightarrow> store_inv (g\<lparr>autoid := n\<rparr>)"
  unfolding store_inv_def by simp

lemma store_inv_addVertex:
  assumes "store_inv g"
  shows "store_inv (snd (addVertex g v))"
proof -
  have a: "1 \<le> autoid g" using assms by (simp add: store_inv_def)
  show ?thesis
    using assms a store_inv_store_vertex[of g v]
      store_inv_store_vertex[of "g\<lparr>autoid := autoid g + 1\<rparr>" "v\<lparr>vl_id := Num (autoid g)\<rparr>"]
      store_inv_autoid[of g "autoid g + 1"]
    by (auto simp: addVertex_def Map_has_def)
qed

lemma store_inv_addEdge:
  assumes "store_inv g"
  shows "store_inv (snd (addEdge g e))"
  using assms
  apply (simp add: addEdge_def Let_def findVertexById_def Map_get_def split: option.splits)
  apply (intro allI impI)
  apply (simp add: store_inv_def Map_set_def distinct_update nth_list_update nth_append)
  done

lemma reachable_store_inv: "reachable g \<Longrightarrow> store_inv g"
  by (induction rule: reachable.induct)
     (simp_all add: store_inv_empty store_inv_addVertex store_inv_addEdge)




lemma count_key_distinct:
  "distinct (map fst al) \<Longrightarrow> k \<in> fst ` set al \<Longrightarrow> length (filter (\<lambda>kr. fst kr = k) al) = 1"
  by (induction al) (auto simp: image_iff filter_empty_conv)

lemma filter_values_by_key:
  "\<forall>k r. (k, r) \<in> set al \<longrightarrow> f r = k \<Longrightarrow>
   filter (\<lambda>r. f r = i) (map snd al) = map snd (filter (\<lambda>kr. fst kr = i) al)"
  by (induction al) auto

lemma store_inv_one_vertex_per_id:
  assumes "store_inv g" "Map_has (vertices g) i"
  shows "length (filter (\<lambda>r. v_id (heapV g ! r) = i) (Map_values (vertices g))) = 1"
proof -
  have d: "distinct (map fst (vertices g))" using assms(1) by (simp add: store_inv_def)
  have "\<forall>k r. (k, r) \<in> set (vertices g) \<longrightarrow> v_id (heapV g ! r) = k"
    using assms(1) d by (simp add: store_inv_def)
  then have "filter (\<lambda>r. v_id (heapV g ! r) = i) (map snd (vertices g))
             = map snd (filter (\<lambda>kr. fst kr = i) (vertices g))"
    by (rule filter_values_by_key)
  then show ?thesis
    using count_key_distinct[OF d, of i] assms(2) by (simp add: Map_values_def Map_has_keys)
qed

lemma addVertex_dup:
  assumes "store_inv g" "Map_has (vertexIndex g) (vl_id v)"
  shows "addVertex g v =
           (Inl (Reported (''A vertex with id '' @ js_string (vl_id v) @ '' already exists'')), g)"
proof -
  have "truthy (vl_id v)"
    using assms by (auto simp: store_inv_def Map_has_def)
  then show ?thesis using assms(2) by (simp add: addVertex_def Dagoba_error_def)
qed

lemma addVertex_truthy_has:
  assumes "truthy (vl_id w)"
  shows "Map_has (vertexIndex (snd (addVertex g w))) (vl_id w)"
  using assms
  by (simp add: addVertex_def store_vertex_def Let_def Map_has_keys Map_set_def keys_update)

lemma addVertex_success:
  assumes "addVertex g w = (Inr i, g')"
  shows "findVertexById g' i = Some (length (heapV g)) \<and> length (heapV g) < length (heapV g') \<and>
         v_id (heapV g' ! length (heapV g)) = i \<and>
         i = (if truthy (vl_id w) then vl_id w else Num (autoid g))"
  using assms
  by (auto simp: addVertex_def store_vertex_def Let_def findVertexById_def Map_get_def Map_set_def
        update_conv' split: if_splits)

lemma not_in_values_update:
  assumes "distinct (map fst al)" "\<forall>k r. (k, r) \<in> set al \<longrightarrow> f r = k" "f r0 = k0" "r0 \<noteq> n"
  shows "r0 \<notin> snd ` set (AList.update k0 n al)"
  using assms
  by (induction al) (auto simp: image_iff)

lemmas store_eval =
  addVertex_def store_vertex_def addEdge_def addVertices_def addEdges_def Dagoba_graph_def
  empty_graph_def findVertexById_def Map_has_def Map_get_def Map_set_def Map_values_def
  Dagoba_error_def Let_def string_of_nat.simps digit_def
  vertex_a_def vertex_b_def edge_knows_def vertex_noid_def scenario_graph_def one_vertex_graph_def
  vertex_zero_def zero_twice_graph_def vertex_ids_def

lemma addVertex_falsy:
  assumes "\<not> truthy (vl_id z)"
  shows "fst (addVertex g z) = Inr (Num (autoid g))"
    and "autoid (snd (addVertex g z)) = autoid g + 1"
  using assms by (simp_all add: addVertex_def store_vertex_def Let_def)

lemma store_inv_no_falsy_id:
  assumes "store_inv g" "\<not> truthy k"
  shows "filter (\<lambda>r. v_id (heapV g ! r) = k) (Map_values (vertices g)) = []"
proof -
  have d: "distinct (map fst (vertices g))" using assms(1) by (simp add: store_inv_def)
  have "v_id (heapV g ! r) \<noteq> k" if "r \<in> set (Map_values (vertices g))" for r
  proof -
    from that obtain k' where "(k', r) \<in> set (vertices g)"
      by (auto simp: Map_values_def)
    then have "map_of (vertices g) k' = Some r" using d by simp
    then have "truthy k' \<and> v_id (heapV g ! r) = k'"
      using assms(1) by (simp add: store_inv_def)
    then show ?thesis using assms(2) by auto
  qed
  then show ?thesis by (simp add: filter_empty_conv)
qed

text \<open>
  C5, with the ids that count as none. In a store built by insertions, inserting a vertex
  whose id is already indexed returns the failure signal and leaves the store as it was;
  after a vertex with a caller-supplied truthy id went in, a second insertion under that
  id fails and the store holds exactly one vertex with that id; a successful insertion
  returns the id under which the vertex is indexed (the caller's when it is truthy, the
  counter's value otherwise). A caller-supplied id that is falsy (\<^verbatim>\<open>0\<close>, \<^verbatim>\<open>''\<close>,
  \<^verbatim>\<open>false\<close>, \<^verbatim>\<open>null\<close>, \<^verbatim>\<open>NaN\<close>) is no id: line 41 tests \<^verbatim>\<open>!vertex._id\<close>, so
  inserting it twice succeeds twice, under two successive values of the counter, and
  the store holds no vertex with that id.
\<close>

theorem addVertex_duplicate_id_rejected:
  assumes "reachable g"
  shows "(Map_has (vertexIndex g) (vl_id v) \<longrightarrow>
            addVertex g v =
              (Inl (Reported (''A vertex with id '' @ js_string (vl_id v) @ '' already exists'')), g))
       \<and> (truthy (vl_id w) \<and> vl_id w' = vl_id w \<longrightarrow>
            (let g1 = snd (addVertex g w) in
               addVertex g1 w' =
                 (Inl (Reported (''A vertex with id '' @ js_string (vl_id w) @ '' already exists'')), g1)
               \<and> length (filter (\<lambda>r. v_id (heapV g1 ! r) = vl_id w) (Map_values (vertices g1))) = 1))
       \<and> (addVertex g u = (Inr i, g') \<longrightarrow>
            findVertexById g' i = Some (length (heapV g)) \<and> length (heapV g) < length (heapV g') \<and>
            v_id (heapV g' ! length (heapV g)) = i \<and>
            i = (if truthy (vl_id u) then vl_id u else Num (autoid g)))
       \<and> (\<not> truthy (vl_id z) \<and> vl_id z' = vl_id z \<longrightarrow>
            (let g1 = snd (addVertex g z); g2 = snd (addVertex g1 z') in
               fst (addVertex g z) = Inr (Num (autoid g))
               \<and> fst (addVertex g1 z') = Inr (Num (autoid g + 1))
               \<and> length (filter (\<lambda>r. v_id (heapV g2 ! r) = vl_id z) (Map_values (vertices g2))) = 0))"
proof (intro conjI impI)
  have inv: "store_inv g" using assms by (rule reachable_store_inv)
  show "addVertex g v =
          (Inl (Reported (''A vertex with id '' @ js_string (vl_id v) @ '' already exists'')), g)"
    if "Map_has (vertexIndex g) (vl_id v)"
    using inv that by (rule addVertex_dup)
  show "let g1 = snd (addVertex g w) in
          addVertex g1 w' =
            (Inl (Reported (''A vertex with id '' @ js_string (vl_id w) @ '' already exists'')), g1)
          \<and> length (filter (\<lambda>r. v_id (heapV g1 ! r) = vl_id w) (Map_values (vertices g1))) = 1"
    if h: "truthy (vl_id w) \<and> vl_id w' = vl_id w"
  proof -
    let ?g1 = "snd (addVertex g w)"
    have inv1: "store_inv ?g1" using inv by (rule store_inv_addVertex)
    have has1: "Map_has (vertexIndex ?g1) (vl_id w')"
      using h addVertex_truthy_has[of w g] by simp
    then have has2: "Map_has (vertices ?g1) (vl_id w)"
      using inv1 h by (simp add: store_inv_def)
    show ?thesis
      using addVertex_dup[OF inv1 has1] store_inv_one_vertex_per_id[OF inv1 has2] h
      by (simp add: Let_def)
  qed
  show "findVertexById g' i = Some (length (heapV g))" "length (heapV g) < length (heapV g')"
       "v_id (heapV g' ! length (heapV g)) = i"
       "i = (if truthy (vl_id u) then vl_id u else Num (autoid g))"
    if "addVertex g u = (Inr i, g')"
    using addVertex_success[OF that] by blast+
  show "let g1 = snd (addVertex g z); g2 = snd (addVertex g1 z') in
          fst (addVertex g z) = Inr (Num (autoid g))
          \<and> fst (addVertex g1 z') = Inr (Num (autoid g + 1))
          \<and> length (filter (\<lambda>r. v_id (heapV g2 ! r) = vl_id z) (Map_values (vertices g2))) = 0"
    if h: "\<not> truthy (vl_id z) \<and> vl_id z' = vl_id z"
  proof -
    let ?g1 = "snd (addVertex g z)"
    let ?g2 = "snd (addVertex ?g1 z')"
    have f: "\<not> truthy (vl_id z)" "\<not> truthy (vl_id z')" using h by simp_all
    have inv2: "store_inv ?g2" using inv by (intro store_inv_addVertex)
    show ?thesis
      using addVertex_falsy[OF f(1), of g] addVertex_falsy(1)[OF f(2), of ?g1]
        store_inv_no_falsy_id[OF inv2 f(1)]
      by (simp add: Let_def)
  qed
qed

text \<open>
  Scenario D: in the store that holds the vertex with id 1, inserting a vertex with id 1
  reports the duplicate and changes nothing. The vertex with id 2 goes in with its id
  returned; inserted again it is rejected and the store holds one vertex with id 2.
  The vertex passed without an id goes in twice, under the counter's values 1 and 2.
\<close>

theorem addVertex_duplicate_id_rejected_witness:
  "Map_has (vertexIndex one_vertex_graph) (vl_id vertex_a)
   \<and> addVertex one_vertex_graph vertex_a
       = (Inl (Reported ''A vertex with id 1 already exists''), one_vertex_graph)
   \<and> length (vertices one_vertex_graph) = 1
   \<and> fst (addVertex one_vertex_graph vertex_b) = Inr (Num 2)
   \<and> addVertex (snd (addVertex one_vertex_graph vertex_b)) vertex_b
       = (Inl (Reported ''A vertex with id 2 already exists''), snd (addVertex one_vertex_graph vertex_b))
   \<and> length (filter (\<lambda>r. v_id (heapV (snd (addVertex one_vertex_graph vertex_b)) ! r) = Num 2)
                (Map_values (vertices (snd (addVertex one_vertex_graph vertex_b))))) = 1
   \<and> \<not> truthy (vl_id vertex_noid)
   \<and> fst (addVertex one_vertex_graph vertex_noid) = Inr (Num 1)
   \<and> fst (addVertex (snd (addVertex one_vertex_graph vertex_noid)) vertex_noid) = Inr (Num 2)"
proof -
  have r: "reachable one_vertex_graph"
    unfolding one_vertex_graph_def by (intro reachable_addVertex reachable_empty)
  have h: "Map_has (vertexIndex one_vertex_graph) (vl_id vertex_a)"
    "truthy (vl_id vertex_b) \<and> vl_id vertex_b = vl_id vertex_b"
    "fst (addVertex one_vertex_graph vertex_b) = Inr (Num 2)"
    "length (vertices one_vertex_graph) = 1"
    "\<not> truthy (vl_id vertex_noid) \<and> vl_id vertex_noid = vl_id vertex_noid"
    "autoid one_vertex_graph = 1"
    by (simp_all add: store_eval)
  have ids: "vl_id vertex_a = Num 1" "vl_id vertex_b = Num 2"
    by (simp_all add: vertex_a_def vertex_b_def)
  from addVertex_duplicate_id_rejected[OF r, of vertex_a vertex_b vertex_b vertex_b "Num 2"
         "snd (addVertex one_vertex_graph vertex_b)" vertex_noid vertex_noid] h
  show ?thesis
    by (simp add: Let_def ids string_of_nat.simps digit_def)
qed

text \<open>
  C5 as stated fails for a caller-supplied id that is falsy. On a fresh graph,
  \<^verbatim>\<open>addVertex({_id:0,name:"z"})\<close> called twice returns the ids 1 and 2 and no failure
  signal: the second call is not rejected, both vertices are in the store, and no vertex
  of the store has the id 0 (not exactly one).
\<close>

theorem addVertex_falsy_id_not_rejected:
  "vl_id vertex_zero = Num 0
   \<and> fst (addVertex empty_graph vertex_zero) = Inr (Num 1)
   \<and> fst (addVertex (snd (addVertex empty_graph vertex_zero)) vertex_zero) = Inr (Num 2)
   \<and> vertex_ids zero_twice_graph = [Num 1, Num 2]
   \<and> count_list (vertex_ids zero_twice_graph) (Num 0) \<noteq> 1"
  by (simp add: store_eval)

text \<open>
  C6. In a store built by insertions whose counter \<open>autoid\<close> is an indexed id, inserting
  a vertex without an id (a falsy \<^verbatim>\<open>_id\<close>) succeeds with that id: the new vertex takes
  the place of the old one in the vertex map and in the index, no failure is returned,
  the number of entries stays, and the old vertex is reached from neither map.
\<close>

theorem addVertex_autoid_collision_replaces:
  assumes "reachable g" and "findVertexById g (Num (autoid g)) = Some r" and "\<not> truthy (vl_id v)"
  shows "\<exists>g'. addVertex g v = (Inr (Num (autoid g)), g')
            \<and> findVertexById g' (Num (autoid g)) = Some (length (heapV g))
            \<and> Map_get (vertices g') (Num (autoid g)) = Some (length (heapV g))
            \<and> r \<noteq> length (heapV g)
            \<and> r \<notin> snd ` set (vertexIndex g') \<and> r \<notin> snd ` set (vertices g')
            \<and> length (vertices g') = length (vertices g)"
proof -
  have inv: "store_inv g" using assms(1) by (rule reachable_store_inv)
  have m: "map_of (vertices g) (Num (autoid g)) = Some r"
    using assms(2) inv by (simp add: findVertexById_def Map_get_def store_inv_def)
  then have r: "r < length (heapV g)" "v_id (heapV g ! r) = Num (autoid g)"
    using inv by (auto simp: store_inv_def)
  have d: "distinct (map fst (vertices g))" using inv by (simp add: store_inv_def)
  have f: "\<forall>k r. (k, r) \<in> set (vertices g) \<longrightarrow> v_id (heapV g ! r) = k"
    using inv d by (simp add: store_inv_def)
  have nv: "r \<notin> snd ` set (AList.update (Num (autoid g)) (length (heapV g)) (vertices g))"
    using not_in_values_update[OF d f r(2)] r(1) by simp
  have len: "length (AList.update (Num (autoid g)) (length (heapV g)) (vertices g))
               = length (vertices g)"
    using m by (metis length_map update_keys map_of_eq_None_iff option.distinct(1) set_map)
  have vi: "vertexIndex g = vertices g" using inv by (simp add: store_inv_def)
  show ?thesis
    using assms(3) nv len r(1) vi
    by (simp add: addVertex_def store_vertex_def Let_def findVertexById_def Map_get_def
          Map_set_def update_conv')
qed

text \<open>
  The collision on a concrete store: vertex \<^verbatim>\<open>{_id:1,name:"a"}\<close> went into a fresh
  graph, whose counter is still 1; the vertex \<^verbatim>\<open>{name:"c"}\<close> then takes id 1.
\<close>

theorem addVertex_autoid_collision_replaces_witness:
  "findVertexById one_vertex_graph (Num (autoid one_vertex_graph)) = Some 0
   \<and> fst (addVertex one_vertex_graph vertex_noid) = Inr (Num 1)
   \<and> vertices (snd (addVertex one_vertex_graph vertex_noid)) = [(Num 1, 1)]
   \<and> vertexIndex (snd (addVertex one_vertex_graph vertex_noid)) = [(Num 1, 1)]"
proof -
  have r: "reachable one_vertex_graph"
    unfolding one_vertex_graph_def by (intro reachable_addVertex reachable_empty)
  have f: "findVertexById one_vertex_graph (Num (autoid one_vertex_graph)) = Some 0"
    by (simp add: store_eval)
  have n: "\<not> truthy (vl_id vertex_noid)" by (simp add: vertex_noid_def)
  from addVertex_autoid_collision_replaces[OF r f n] f
  show ?thesis by (simp add: store_eval)
qed

text \<open>
  C7. For every store and every edge one of whose endpoints is not indexed, \<^verbatim>\<open>addEdge\<close>
  returns the failure signal with a message that names a missing side (\<^verbatim>\<open>in\<close>, the
  target, when the target is missing; \<^verbatim>\<open>out\<close>, the source, otherwise) and the store,
  returned unchanged, has no adjacency list or index entry touched.
\<close>

theorem addEdge_dangling_endpoint_rejected:
  assumes "findVertexById g (el_in e) = None \<or> findVertexById g (el_out e) = None"
  shows "addEdge g e =
           (Inl (Reported (''That edge's ''
                            @ (if findVertexById g (el_in e) = None then ''in'' else ''out'')
                            @ '' vertex wasn't found'')), g)
         \<and> findVertexById g (if findVertexById g (el_in e) = None then el_in e else el_out e) = None"
  using assms
  by (auto simp: addEdge_def Let_def Dagoba_error_def split: option.splits)

text \<open>An edge from vertex 1 to a vertex 2 that the store does not hold.\<close>

theorem addEdge_dangling_endpoint_rejected_witness:
  "findVertexById one_vertex_graph (el_in edge_knows) = None
   \<and> addEdge one_vertex_graph edge_knows
       = (Inl (Reported ''That edge's in vertex wasn't found''), one_vertex_graph)"
proof -
  have h: "findVertexById one_vertex_graph (el_in edge_knows) = None" by (simp add: store_eval)
  then have "findVertexById one_vertex_graph (el_in edge_knows) = None
             \<or> findVertexById one_vertex_graph (el_out edge_knows) = None"
    by (rule disjI1)
  from addEdge_dangling_endpoint_rejected[OF this] h
  show ?thesis by simp
qed

lemma edge_key_cong:
  assumes "v_id (heapV g' ! e_out e) = v_id (heapV g ! e_out e)"
    and "v_id (heapV g' ! e_in e) = v_id (heapV g ! e_in e)"
  shows "edge_key g' e = edge_key g e"
  using assms by (simp add: edge_key_def)

lemma addVertex_shape:
  "\<exists>vs. heapV (snd (addVertex g v)) = heapV g @ vs \<and> heapE (snd (addVertex g v)) = heapE g
        \<and> edges (snd (addVertex g v)) = edges g \<and> edgeIndex (snd (addVertex g v)) = edgeIndex g"
  by (auto simp: addVertex_def store_vertex_def Let_def)

lemma edge_keys_inv_addVertex:
  assumes "store_inv g" "edge_keys_inv g"
  shows "edge_keys_inv (snd (addVertex g v))"
proof -
  obtain vs where sh: "heapV (snd (addVertex g v)) = heapV g @ vs" "heapE (snd (addVertex g v)) = heapE g"
    "edges (snd (addVertex g v)) = edges g"
    using addVertex_shape[of g v] by blast
  show ?thesis
    unfolding edge_keys_inv_def
  proof (intro allI impI)
    fix k er assume "map_of (edges (snd (addVertex g v))) k = Some er"
    then have m: "map_of (edges g) k = Some er" by (simp add: sh)
    then have er: "er < length (heapE g)" and k: "k = edge_key g (heapE g ! er)"
      using assms(2) by (auto simp: edge_keys_inv_def)
    have b: "e_in (heapE g ! er) < length (heapV g)" "e_out (heapE g ! er) < length (heapV g)"
      using assms(1) er by (auto simp: store_inv_def)
    have "edge_key (snd (addVertex g v)) (heapE g ! er) = edge_key g (heapE g ! er)"
      by (rule edge_key_cong) (simp_all add: sh nth_append b)
    then show "er < length (heapE (snd (addVertex g v)))
               \<and> k = edge_key (snd (addVertex g v)) (heapE (snd (addVertex g v)) ! er)"
      using er k by (simp add: sh)
  qed
qed

text \<open>What a successful addEdge does, field by field.\<close>

lemma addEdge_fail_same:
  assumes "findVertexById g (el_in e) = None \<or> findVertexById g (el_out e) = None"
  shows "snd (addEdge g e) = g"
  using assms by (auto simp: addEdge_def Let_def split: option.splits)

lemma addEdge_ok:
  assumes "findVertexById g (el_in e) = Some iv" "findVertexById g (el_out e) = Some ov"
  shows "length (heapV (snd (addEdge g e))) = length (heapV g)"
    and "\<And>r. v_id (heapV (snd (addEdge g e)) ! r) = v_id (heapV g ! r)"
    and "\<And>r. v_props (heapV (snd (addEdge g e)) ! r) = v_props (heapV g ! r)"
    and "heapE (snd (addEdge g e)) = heapE g @ [\<lparr> e_in = iv, e_out = ov, e_label = el_label e, e_props = el_props e \<rparr>]"
    and "edges (snd (addEdge g e)) =
           Map_set (edges g)
             (js_string (v_id (heapV g ! ov)) @ ''->'' @ js_string (v_id (heapV g ! iv)) @ '':'' @ js_string (el_label e))
             (length (heapE g))"
    and "edgeIndex (snd (addEdge g e)) =
           Map_set (edgeIndex g)
             (js_string (v_id (heapV g ! ov)) @ ''->'' @ js_string (v_id (heapV g ! iv)) @ '':'' @ js_string (el_label e))
             (length (heapE g))"
    and "vertices (snd (addEdge g e)) = vertices g"
    and "vertexIndex (snd (addEdge g e)) = vertexIndex g"
    and "autoid (snd (addEdge g e)) = autoid g"
proof -
  have id: "v_id (H[a := (H ! a)\<lparr>v_out := x\<rparr>, b := (H[a := (H ! a)\<lparr>v_out := x\<rparr>] ! b)\<lparr>v_in := y\<rparr>] ! r) = v_id (H ! r)"
    for H :: "vertex list" and a b r x y
    by (cases "a < length H"; cases "b < length H"; cases "r = a"; cases "r = b")
       (simp_all add: nth_list_update list_update_beyond not_less)
  have pr: "v_props (H[a := (H ! a)\<lparr>v_out := x\<rparr>, b := (H[a := (H ! a)\<lparr>v_out := x\<rparr>] ! b)\<lparr>v_in := y\<rparr>] ! r) = v_props (H ! r)"
    for H :: "vertex list" and a b r x y
    by (cases "a < length H"; cases "b < length H"; cases "r = a"; cases "r = b")
       (simp_all add: nth_list_update list_update_beyond not_less)
  show "length (heapV (snd (addEdge g e))) = length (heapV g)"
    using assms by (simp add: addEdge_def Let_def)
  show "\<And>r. v_id (heapV (snd (addEdge g e)) ! r) = v_id (heapV g ! r)"
    using assms by (simp add: addEdge_def Let_def id)
  show "\<And>r. v_props (heapV (snd (addEdge g e)) ! r) = v_props (heapV g ! r)"
    using assms by (simp add: addEdge_def Let_def pr)
  show "heapE (snd (addEdge g e)) = heapE g @ [\<lparr> e_in = iv, e_out = ov, e_label = el_label e, e_props = el_props e \<rparr>]"
    using assms by (simp add: addEdge_def Let_def)
  show "edges (snd (addEdge g e)) =
           Map_set (edges g)
             (js_string (v_id (heapV g ! ov)) @ ''->'' @ js_string (v_id (heapV g ! iv)) @ '':'' @ js_string (el_label e))
             (length (heapE g))"
    using assms by (simp add: addEdge_def Let_def id)
  show "edgeIndex (snd (addEdge g e)) =
           Map_set (edgeIndex g)
             (js_string (v_id (heapV g ! ov)) @ ''->'' @ js_string (v_id (heapV g ! iv)) @ '':'' @ js_string (el_label e))
             (length (heapE g))"
    using assms by (simp add: addEdge_def Let_def id)
  show "vertices (snd (addEdge g e)) = vertices g" "vertexIndex (snd (addEdge g e)) = vertexIndex g"
    "autoid (snd (addEdge g e)) = autoid g"
    using assms by (simp_all add: addEdge_def Let_def)
qed

lemma edge_keys_inv_addEdge:
  assumes "store_inv g" "edge_keys_inv g"
  shows "edge_keys_inv (snd (addEdge g e))"
proof (cases "findVertexById g (el_in e) = None \<or> findVertexById g (el_out e) = None")
  case True
  then show ?thesis using assms(2) by (simp add: addEdge_fail_same)
next
  case False
  then obtain iv ov where f: "findVertexById g (el_in e) = Some iv" "findVertexById g (el_out e) = Some ov"
    by auto
  note ok = addEdge_ok[OF f]
  let ?g' = "snd (addEdge g e)"
  let ?new = "\<lparr> e_in = iv, e_out = ov, e_label = el_label e, e_props = el_props e \<rparr>"
  have key_same: "edge_key ?g' x = edge_key g x" for x
    by (rule edge_key_cong) (simp_all add: ok(2))
  show ?thesis
    unfolding edge_keys_inv_def
  proof (intro allI impI)
    fix k er assume m: "map_of (edges ?g') k = Some er"
    let ?k0 = "js_string (v_id (heapV g ! ov)) @ ''->'' @ js_string (v_id (heapV g ! iv)) @ '':'' @ js_string (el_label e)"
    show "er < length (heapE ?g') \<and> k = edge_key ?g' (heapE ?g' ! er)"
    proof (cases "k = ?k0")
      case True
      then have "er = length (heapE g)" using m by (simp add: ok(5) Map_set_def update_conv')
      then show ?thesis using True by (simp add: ok(4) ok(2) edge_key_def)
    next
      case False
      then have "map_of (edges g) k = Some er" using m by (simp add: ok(5) Map_set_def update_conv')
      then have "er < length (heapE g)" "k = edge_key g (heapE g ! er)"
        using assms(2) by (auto simp: edge_keys_inv_def)
      then show ?thesis by (simp add: ok(4) key_same nth_append)
    qed
  qed
qed

lemma reachable_edge_keys_inv: "reachable g \<Longrightarrow> edge_keys_inv g"
proof (induction rule: reachable.induct)
  case reachable_empty
  show ?case by (simp add: edge_keys_inv_def empty_graph_def)
next
  case (reachable_addVertex g v)
  then show ?case by (simp add: edge_keys_inv_addVertex reachable_store_inv)
next
  case (reachable_addEdge g e)
  then show ?case by (simp add: edge_keys_inv_addEdge reachable_store_inv)
qed


text \<open>
  C4, at a store the insertions can build. The store of the scenarios has edge endpoint
  integrity. After the vertex \<^verbatim>\<open>{name:"c"}\<close> is inserted, the counter still being 1,
  it has not: the edge \<^verbatim>\<open>1->2:knows\<close> of the edge index has the old vertex 1 for its
  source, which is no vertex of the vertex index any more, id 1 now leading to the new
  vertex, whose out-adjacency does not hold the edge.
\<close>

theorem edge_integrity_lost_on_id_collision:
  "edge_integrity scenario_graph
   \<and> \<not> edge_integrity collided_graph
   \<and> addVertex scenario_graph vertex_noid = (Inr (Num 1), collided_graph)
   \<and> Map_get (edgeIndex collided_graph) ''1->2:knows'' = Some 0
   \<and> e_out (heapE collided_graph ! 0) = 0
   \<and> 0 \<notin> set (Map_values (vertexIndex collided_graph))
   \<and> findVertexById collided_graph (Num 1) = Some 2
   \<and> v_out (heapV collided_graph ! 2) = []"
  by (simp add: edge_integrity_def collided_graph_def store_eval)

section \<open>Properties of the snapshot\<close>

lemma update_fresh: "k \<notin> fst ` set al \<Longrightarrow> AList.update k v al = al @ [(k, v)]"
  by (induction al) auto















text \<open>
  Without a replacer the text of a vertex or of an edge is outside the model: the
  adjacency arrays and the endpoints are objects. So is a vertex object of the text
  that has a truthy primitive for an adjacency array.
\<close>

lemma json_of_vertex_get: "json_of (vertex_get v) = Inl NestedValue"
proof -
  have "\<not> is_prim (vertex_get v ''_out'')" by (simp add: vertex_get_def)
  then have "\<not> flat (vertex_get v)" unfolding flat_def by blast
  then show ?thesis by (simp add: json_of_def)
qed

lemma json_of_edge_get: "json_of (edge_get e) = Inl NestedValue"
proof -
  have "\<not> is_prim (edge_get e ''_out'')" by (simp add: edge_get_def)
  then have "\<not> flat (edge_get e)" unfolding flat_def by blast
  then show ?thesis by (simp add: json_of_def)
qed

lemma parsed_vertex_adjacency:
  "truthy p \<Longrightarrow> parsed_vertex (obj(''_out'' := p)) = Inl AdjacencyNotArray"
  "truthy p \<Longrightarrow> parsed_vertex (obj(''_in'' := p)) = Inl AdjacencyNotArray"
  by (simp_all add: parsed_vertex_def)




























section \<open>Edge endpoint integrity without id collisions\<close>

lemma clean_reachable_reachable: "clean_reachable g \<Longrightarrow> reachable g"
  by (induction rule: clean_reachable.induct) (auto intro: reachable.intros)

lemma values_update_fresh:
  "k \<notin> fst ` set al \<Longrightarrow> set (map snd (AList.update k v al)) = insert v (set (map snd al))"
  by (simp add: update_fresh)

lemma adjacency_inv_store_vertex:
  assumes "store_inv g" "adjacency_inv g" "vl_out v = None" "vl_in v = None"
    "\<not> Map_has (vertexIndex g) (vl_id v)"
  shows "adjacency_inv (snd (store_vertex g v))"
proof -
  have fresh: "vl_id v \<notin> fst ` set (vertexIndex g)" using assms(5) by (simp add: Map_has_keys)
  have b: "\<forall>er < length (heapE g). e_in (heapE g ! er) < length (heapV g) \<and> e_out (heapE g ! er) < length (heapV g)"
    using assms(1) by (simp add: store_inv_def)
  have vals: "set (map snd (AList.update (vl_id v) (length (heapV g)) (vertexIndex g)))
              = {0..<Suc (length (heapV g))}"
    using values_update_fresh[OF fresh] assms(2) by (auto simp: adjacency_inv_def Map_values_def)
  show ?thesis
    using assms(2,3,4) b vals
    by (auto simp: adjacency_inv_def store_vertex_def Let_def Map_set_def Map_values_def nth_append less_Suc_eq)
qed

lemma adjacency_inv_autoid: "adjacency_inv (g\<lparr>autoid := n\<rparr>) = adjacency_inv g"
  by (simp add: adjacency_inv_def)

lemma adjacency_inv_addVertex:
  assumes "store_inv g" "adjacency_inv g" "vl_out v = None" "vl_in v = None"
    "truthy (vl_id v) \<or> \<not> Map_has (vertexIndex g) (Num (autoid g))"
  shows "adjacency_inv (snd (addVertex g v))"
proof (cases "truthy (vl_id v)")
  case True
  show ?thesis
  proof (cases "Map_has (vertexIndex g) (vl_id v)")
    case h: True
    then show ?thesis using True assms(2) by (simp add: addVertex_def)
  next
    case False
    then show ?thesis
      using True adjacency_inv_store_vertex[OF assms(1,2,3,4)] by (simp add: addVertex_def)
  qed
next
  case False
  then have nh: "\<not> Map_has (vertexIndex g) (Num (autoid g))" using assms(5) by simp
  have a: "1 \<le> autoid g" using assms(1) by (simp add: store_inv_def)
  have "adjacency_inv (snd (store_vertex (g\<lparr>autoid := autoid g + 1\<rparr>) (v\<lparr>vl_id := Num (autoid g)\<rparr>)))"
    using assms(2,3,4) nh a store_inv_autoid[OF assms(1), of "autoid g + 1"]
    by (intro adjacency_inv_store_vertex) (simp_all add: adjacency_inv_autoid)
  then show ?thesis using False by (simp add: addVertex_def)
qed

lemma addEdge_adjacency:
  assumes "findVertexById g (el_in e) = Some iv" "findVertexById g (el_out e) = Some ov"
    "iv < length (heapV g)" "ov < length (heapV g)" "r < length (heapV g)"
  shows "v_out (heapV (snd (addEdge g e)) ! r)
           = (if r = ov then v_out (heapV g ! r) @ [length (heapE g)] else v_out (heapV g ! r))"
    and "v_in (heapV (snd (addEdge g e)) ! r)
           = (if r = iv then v_in (heapV g ! r) @ [length (heapE g)] else v_in (heapV g ! r))"
  using assms by (auto simp: addEdge_def Let_def nth_list_update)

lemma count_list_bounded: "\<forall>x\<in>set xs. x < n \<Longrightarrow> count_list xs (n::nat) = 0"
  by (induction xs) auto

lemma adjacency_inv_addEdge:
  assumes "store_inv g" "adjacency_inv g"
  shows "adjacency_inv (snd (addEdge g e))"
proof (cases "findVertexById g (el_in e) = None \<or> findVertexById g (el_out e) = None")
  case True
  then show ?thesis using assms(2) by (simp add: addEdge_fail_same)
next
  case False
  then obtain iv ov where f: "findVertexById g (el_in e) = Some iv" "findVertexById g (el_out e) = Some ov"
    by auto
  have vi: "vertexIndex g = vertices g" using assms(1) by (simp add: store_inv_def)
  have ivb: "iv < length (heapV g)" and ovb: "ov < length (heapV g)"
    using f assms(1) by (auto simp: findVertexById_def Map_get_def store_inv_def)
  note ok = addEdge_ok[OF f]
  note adj = addEdge_adjacency[OF f ivb ovb]
  let ?g' = "snd (addEdge g e)"
  let ?n = "length (heapE g)"
  have old_b: "\<forall>r < length (heapV g). \<forall>er \<in> set (v_out (heapV g ! r)) \<union> set (v_in (heapV g ! r)). er < ?n"
    using assms(2) by (simp add: adjacency_inv_def)
  have old_c: "\<forall>er < ?n. \<forall>r < length (heapV g).
        count_list (v_out (heapV g ! r)) er = (if r = e_out (heapE g ! er) then 1 else 0) \<and>
        count_list (v_in (heapV g ! r)) er = (if r = e_in (heapE g ! er) then 1 else 0)"
    using assms(2) by (simp add: adjacency_inv_def)
  have zero: "count_list (v_out (heapV g ! r)) ?n = 0" "count_list (v_in (heapV g ! r)) ?n = 0"
    if "r < length (heapV g)" for r
    using old_b that by (auto intro!: count_list_bounded)
  have A: "set (Map_values (vertexIndex ?g')) = {0..<length (heapV ?g')}"
    using assms(2) by (simp add: ok(1) ok(8) adjacency_inv_def)
  have B: "\<forall>r < length (heapV ?g'). \<forall>er \<in> set (v_out (heapV ?g' ! r)) \<union> set (v_in (heapV ?g' ! r)).
             er < length (heapE ?g')"
  proof (intro allI impI ballI)
    fix r er assume r: "r < length (heapV ?g')"
      and er: "er \<in> set (v_out (heapV ?g' ! r)) \<union> set (v_in (heapV ?g' ! r))"
    have r': "r < length (heapV g)" using r by (simp add: ok(1))
    from er old_b r' show "er < length (heapE ?g')"
      by (auto simp: adj[OF r'] ok(4) less_Suc_eq split: if_splits)
  qed
  have C: "\<forall>er < length (heapE ?g'). \<forall>r < length (heapV ?g').
        count_list (v_out (heapV ?g' ! r)) er = (if r = e_out (heapE ?g' ! er) then 1 else 0) \<and>
        count_list (v_in (heapV ?g' ! r)) er = (if r = e_in (heapE ?g' ! er) then 1 else 0)"
  proof (intro allI impI)
    fix er r assume er: "er < length (heapE ?g')" and r: "r < length (heapV ?g')"
    have r': "r < length (heapV g)" using r by (simp add: ok(1))
    show "count_list (v_out (heapV ?g' ! r)) er = (if r = e_out (heapE ?g' ! er) then 1 else 0) \<and>
        count_list (v_in (heapV ?g' ! r)) er = (if r = e_in (heapE ?g' ! er) then 1 else 0)"
    proof (cases "er = ?n")
      case True
      then show ?thesis using zero[OF r'] zero[OF ivb] zero[OF ovb] by (auto simp: adj[OF r'] ok(4))
    next
      case False
      then have "er < ?n" using er by (simp add: ok(4))
      then show ?thesis using old_c r' False by (simp add: adj[OF r'] ok(4) nth_append)
    qed
  qed
  show ?thesis unfolding adjacency_inv_def using A B C by blast
qed

lemma clean_reachable_adjacency_inv: "clean_reachable g \<Longrightarrow> adjacency_inv g"
proof (induction rule: clean_reachable.induct)
  case clean_empty
  show ?case by (simp add: adjacency_inv_def empty_graph_def Map_values_def)
next
  case (clean_addVertex g v)
  then show ?case
    using adjacency_inv_addVertex[of g v] reachable_store_inv[OF clean_reachable_reachable]
    by blast
next
  case (clean_addEdge g e)
  then show ?case
    using adjacency_inv_addEdge[of g e] reachable_store_inv[OF clean_reachable_reachable]
    by blast
qed

text \<open>
  Edge endpoint integrity holds of every store built by insertions in which vertices
  come without adjacency arrays and no vertex without an id meets a counter that is an
  indexed id: the collision is the one way the insertions lose it.
\<close>

lemma edge_integrity_clean:
  assumes "clean_reachable g"
  shows "edge_integrity g"
proof -
  have r: "reachable g" using assms by (rule clean_reachable_reachable)
  have inv: "store_inv g" using r by (rule reachable_store_inv)
  have kinv: "edge_keys_inv g" using r by (rule reachable_edge_keys_inv)
  have adj: "adjacency_inv g" using assms by (rule clean_reachable_adjacency_inv)
  have vals: "set (Map_values (vertexIndex g)) = {0..<length (heapV g)}"
    using adj by (simp add: adjacency_inv_def)
  have d: "distinct (map fst (edges g))" and ei: "edgeIndex g = edges g"
    using inv by (simp_all add: store_inv_def)
  show ?thesis
    unfolding edge_integrity_def list_all_iff
  proof (intro ballI)
    fix kr assume kr: "kr \<in> set (edgeIndex g)"
    obtain key er where p: "kr = (key, er)" by (cases kr)
    have "map_of (edges g) key = Some er" using kr p d ei by simp
    then have er: "er < length (heapE g)" using kinv by (simp add: edge_keys_inv_def)
    then have b: "e_in (heapE g ! er) < length (heapV g)" "e_out (heapE g ! er) < length (heapV g)"
      using inv by (auto simp: store_inv_def)
    have c: "\<forall>r < length (heapV g).
        count_list (v_out (heapV g ! r)) er = (if r = e_out (heapE g ! er) then 1 else 0) \<and>
        count_list (v_in (heapV g ! r)) er = (if r = e_in (heapE g ! er) then 1 else 0)"
      using adj er by (simp add: adjacency_inv_def)
    show "case kr of (key, er) \<Rightarrow>
        e_out (heapE g ! er) \<in> set (Map_values (vertexIndex g)) \<and>
        e_in (heapE g ! er) \<in> set (Map_values (vertexIndex g)) \<and>
        (\<forall>r\<in>set (Map_values (vertexIndex g)).
            count_list (v_out (heapV g ! r)) er = (if r = e_out (heapE g ! er) then 1 else 0) \<and>
            count_list (v_in (heapV g ! r)) er = (if r = e_in (heapE g ! er) then 1 else 0))"
      using b c by (simp add: p vals)
  qed
qed

section \<open>Properties of the transformer registry\<close>

lemma addTransformers_empty: "addTransformers [] regs = Some []"
proof (induction regs)
  case Nil
  show ?case by simp
next
  case (Cons reg regs)
  obtain f priority where reg: "reg = (f, priority)" by (cases reg)
  show ?case
    using Cons.IH by (cases f) (simp_all add: reg addTransformer_def addTransformer_loop.simps)
qed

text \<open>
  Once the loop stands on an entry whose priority the new one does not exceed, it
  splices and steps onto the same entry again, and never ends.
\<close>

lemma addTransformer_loop_diverges_aux:
  assumes "addTransformer_loop new i T = Some T'"
  shows "\<not> (i < length T \<and> t_priority new \<le> t_priority (T ! i))"
proof (rule addTransformer_loop.raw_induct
         [where P = "\<lambda>new i T T'. \<not> (i < length T \<and> t_priority new \<le> t_priority (T ! i))",
          OF _ assms])
  fix loop :: "transformer \<Rightarrow> nat \<Rightarrow> transformer list \<Rightarrow> transformer list option"
    and new i T T'
  assume IH: "\<And>new i T T'. loop new i T = Some T'
                \<Longrightarrow> \<not> (i < length T \<and> t_priority new \<le> t_priority (T ! i))"
    and body: "(if i < length T
                then if t_priority (T ! i) < t_priority new then Some T
                     else loop new (Suc i) (splice_in i new T)
                else Some T) = Some T'"
  show "\<not> (i < length T \<and> t_priority new \<le> t_priority (T ! i))"
  proof
    assume h: "i < length T \<and> t_priority new \<le> t_priority (T ! i)"
    then have "loop new (Suc i) (splice_in i new T) = Some T'"
      using body by simp
    from IH[OF this] have "\<not> (Suc i < length (splice_in i new T)
          \<and> t_priority new \<le> t_priority (splice_in i new T ! Suc i))" .
    moreover have "Suc i < length (splice_in i new T)"
      using h by (simp add: splice_in_def)
    moreover have "splice_in i new T ! Suc i = T ! i"
      using h by (simp add: splice_in_def nth_append)
    ultimately show False using h by simp
  qed
qed

lemma addTransformer_loop_diverges:
  assumes "i < length T" and "t_priority new \<le> t_priority (T ! i)"
  shows "addTransformer_loop new i T = None"
  using addTransformer_loop_diverges_aux[of new i T] assms by (cases "addTransformer_loop new i T") auto

text \<open>
  On a registry that is not empty the call changes nothing either: it leaves the loop at
  once when the new priority exceeds the first entry's, and never returns otherwise.
\<close>

lemma addTransformer_nonempty:
  "addTransformer (t # T) (Callable fn) priority =
     (if priority > t_priority t then Some (Inr (), t # T) else None)"
  using addTransformer_loop_diverges[of 0 "t # T" "\<lparr> t_priority = priority, t_fun = fn \<rparr>"]
  by (simp add: addTransformer_def addTransformer_loop.simps)

text \<open>
  C1. Registered on the registry of a loaded module, which is empty, a transformer is
  not entered at all: the loop has no turn to splice in, and nothing appends. The
  registry stays empty after any number of registrations, and \<^verbatim>\<open>transform\<close> returns
  the program as it was, no transformer applied.
\<close>

theorem addTransformer_registers_nothing:
  "addTransformer initial_T (Callable fn) priority = Some (Inr (), [])
   \<and> addTransformers initial_T regs = Some []
   \<and> transform [] program = program"
  using addTransformers_empty[of regs]
  by (simp add: initial_T_def addTransformer_def addTransformer_loop.simps transform_def)

section \<open>Properties of the engine on the scenarios\<close>

lemma scenario_graph_eval:
  "scenario_graph =
     \<lparr> heapV = [\<lparr> v_id = Num 1, v_out = [0], v_in = [], v_props = (\<lambda>_. Undefined)(''name'' := Str ''a'') \<rparr>,
                 \<lparr> v_id = Num 2, v_out = [], v_in = [0], v_props = (\<lambda>_. Undefined)(''name'' := Str ''b'') \<rparr>],
       heapE = [\<lparr> e_in = 1, e_out = 0, e_label = Str ''knows'', e_props = (\<lambda>_. Undefined) \<rparr>],
       vertices = [(Num 1, 0), (Num 2, 1)],
       edges = [(''1->2:knows'', 0)],
       vertexIndex = [(Num 1, 0), (Num 2, 1)],
       edgeIndex = [(''1->2:knows'', 0)],
       autoid = 1 \<rparr>"
  by (simp add: store_eval)

lemmas engine_eval =
  run_def run_step_def dispatch_def next_stage_def start_def transform_def initial_T_def
  add_def G_v_def Dagoba_query_def getPipetype_def Pipetypes_def
  vertex_pipetype_def simpleTraversal_def property_pipetype_def unique_pipetype_def
  filter_pipetype_def take_pipetype_def as_pipetype_def back_pipetype_def except_pipetype_def
  merge_pipetype_def fauxPipetype_def makeGremlin_def gotoVertex_def new_state_def
  empty_state_def is_nullish_def as_of_def arg0_def vertex_get_def edge_get_def
  findVertices_def findVerticesByIds_def findVertexByArg_def findVertexById_def searchVertices_def
  findOutEdges_def findInEdges_def filterEdges_def objectFilter_def strict_equal_def
  Map_get_def Map_values_def List.map_filter_def Let_def

text \<open>
  C2. Called with no gremlin on a state whose \<^verbatim>\<open>vertices\<close> is the empty array, the
  \<^verbatim>\<open>merge\<close> stage throws a \<^verbatim>\<open>TypeError\<close>, whatever the graph, the labels and the rest
  of the state. The engine makes that call: \<^verbatim>\<open>g.v(1).as('a').merge('a')\<close> yields vertex
  1 and then ends with the exception. Called with no gremlin while vertices are left,
  the stage emits the last of them with a state object of its own, newly made.
\<close>

theorem merge_faults_without_gremlin:
  "merge_pipetype g args None (state\<lparr> st_vertices := Some [] \<rparr>) H
     = Inl (TypeError ''Cannot read properties of undefined (reading 'as')'')
   \<and> observed (run initial_T query_merge)
       = Some ([VertexRef 0], Some (TypeError ''Cannot read properties of undefined (reading 'as')''))
   \<and> merge_pipetype g args None (state\<lparr> st_vertices := Some (vs @ [v]) \<rparr>) H
       = Inr (Emit \<lparr> g_vertex = v, g_state = length H, g_result = Prim Undefined \<rparr>,
              state\<lparr> st_vertices := Some vs \<rparr>, H @ [None])"
proof (intro conjI)
  show "merge_pipetype g args None (state\<lparr> st_vertices := Some [] \<rparr>) H
          = Inl (TypeError ''Cannot read properties of undefined (reading 'as')'')"
    by (simp add: merge_pipetype_def)
  show "observed (run initial_T query_merge)
          = Some ([VertexRef 0], Some (TypeError ''Cannot read properties of undefined (reading 'as')''))"
    by (simp add: observed_def query_merge_def scenario_graph_eval engine_eval run_loop.simps)
  show "merge_pipetype g args None (state\<lparr> st_vertices := Some (vs @ [v]) \<rparr>) H
       = Inr (Emit \<lparr> g_vertex = v, g_state = length H, g_result = Prim Undefined \<rparr>,
              state\<lparr> st_vertices := Some vs \<rparr>, H @ [None])"
    by (simp add: merge_pipetype_def makeGremlin_def new_state_def Let_def)
qed

text \<open>
  C3, as the code has it. On the store of the scenarios, \<^verbatim>\<open>g.v().property('name')\<close>
  ends without an exception and yields \<^verbatim>\<open>"b"\<close>, then \<^verbatim>\<open>"a"\<close>: the \<^verbatim>\<open>vertex\<close> stage
  pops the vertex inserted last first.
\<close>

theorem scenario_B_yields_b_then_a:
  "observed (run initial_T query_names) = Some ([Prim (Str ''b''), Prim (Str ''a'')], None)"
  by (simp add: observed_def query_names_def scenario_graph_eval engine_eval run_loop.simps)

text \<open>C3 as stated fails: the results are not \<^verbatim>\<open>["a","b"]\<close>.\<close>

theorem scenario_B_not_a_then_b:
  "map_option fst (observed (run initial_T query_names)) \<noteq> Some [Prim (Str ''a''), Prim (Str ''b'')]"
  by (simp add: observed_def query_names_def scenario_graph_eval engine_eval run_loop.simps)

text \<open>
  C9. On the store of the scenarios, \<^verbatim>\<open>g.v(1).as('start').out('knows').back('start')\<close>
  ends without an exception and yields one result, the vertex indexed under id 1, whose
  \<^verbatim>\<open>name\<close> is \<^verbatim>\<open>"a"\<close>. The calls of the stages show the round trip: the \<^verbatim>\<open>vertex\<close>
  stage (position 0) emits a gremlin at vertex 1, the \<^verbatim>\<open>as\<close> stage (position 1) passes
  it on and records vertex 1 under \<^verbatim>\<open>start\<close> in its state object, the \<^verbatim>\<open>out\<close> stage
  (position 2) emits a gremlin at vertex 2 with the same state object, and the \<^verbatim>\<open>back\<close>
  stage (position 3) emits a gremlin at vertex 1 again, still with that state object;
  every later call finds nothing more.
\<close>

theorem scenario_C_back_returns_to_start:
  "observed (run initial_T query_round_trip) = Some ([VertexRef 0], None)
   \<and> findVertexById scenario_graph (Num 1) = Some 0
   \<and> vertex_get (heapV scenario_graph ! 0) ''_id'' = Prim (Num 1)
   \<and> vertex_get (heapV scenario_graph ! 0) ''name'' = Prim (Str ''a'')
   \<and> findVertexById scenario_graph (Num 2) = Some 1
   \<and> run_log initial_T query_round_trip =
       Some [(3, Pull), (2, Pull), (1, Pull),
             (0, Emit \<lparr> g_vertex = 0, g_state = 0, g_result = Prim Undefined \<rparr>),
             (1, Emit \<lparr> g_vertex = 0, g_state = 0, g_result = Prim Undefined \<rparr>),
             (2, Emit \<lparr> g_vertex = 1, g_state = 0, g_result = Prim Undefined \<rparr>),
             (3, Emit \<lparr> g_vertex = 0, g_state = 0, g_result = Prim Undefined \<rparr>),
             (3, Pull), (2, Pull), (1, Pull), (0, Done), (1, Pull), (2, Pull), (3, Pull)]
   \<and> checkpoints ''start'' (run initial_T query_round_trip) = Some [Some 0]"
  by (simp add: observed_def run_log_def checkpoints_def query_round_trip_def scenario_graph_eval
        engine_eval run_loop.simps)

section \<open>Properties of the unique stage\<close>

lemma next_stage_keeps: "m_state (next_stage mx m) = m_state m" "m_log (next_stage mx m) = m_log m"
  by (simp_all add: next_stage_def Let_def)

lemma dispatch_keeps: "m_state (dispatch mx sig m) = m_state m" "m_log (dispatch mx sig m) = m_log m"
  by (cases sig; simp add: dispatch_def next_stage_keeps)+

lemma emitted_at_snoc:
  "emitted_at pos (log @ [(pc, sig)]) =
     emitted_at pos log @ (case sig of Emit gr \<Rightarrow> (if pc = pos then [gr] else []) | _ \<Rightarrow> [])"
  by (cases sig) (simp_all add: emitted_at_def List.map_filter_def)

lemma run_step_shape:
  assumes "run_step g program m = Inr m'"
  obtains sig st' H' where
    "0 \<le> m_pc m" "m_pc m < int (length program)"
    "getPipetype (fst (program ! nat (m_pc m))) g (snd (program ! nat (m_pc m))) (m_maybeGremlin m)
       (case m_state m (nat (m_pc m)) of Some st \<Rightarrow> st | None \<Rightarrow> empty_state) (m_heap m)
     = Inr (sig, st', H')"
    "m_state m' = (m_state m)(nat (m_pc m) := Some st')"
    "m_log m' = m_log m @ [(nat (m_pc m), sig)]"
  using assms
  by (auto simp: run_step_def Let_def dispatch_keeps split: if_splits sum.splits)

lemma unique_call:
  assumes "unique_pipetype g args mg st H = Inr (sig, st', H')"
  shows "(case sig of
            Emit gr \<Rightarrow> gremlin_id g gr \<notin> visited_of (Some st)
                        \<and> visited_of (Some st') = insert (gremlin_id g gr) (visited_of (Some st))
          | _ \<Rightarrow> visited_of (Some st') = visited_of (Some st))"
  using assms
  by (auto simp: unique_pipetype_def Let_def visited_of_def gremlin_id_def split: option.splits if_splits)

lemma visited_of_empty_state: "visited_of (Some empty_state) = visited_of None"
  by (simp add: visited_of_def empty_state_def)

lemma unique_inv_step:
  assumes pos: "pos < length program" "fst (program ! pos) = ''unique''"
    and inv: "unique_inv g pos m"
    and step: "run_step g program m = Inr m'"
  shows "unique_inv g pos m'"
proof -
  from step obtain sig st' H' where
    call: "getPipetype (fst (program ! nat (m_pc m))) g (snd (program ! nat (m_pc m))) (m_maybeGremlin m)
       (case m_state m (nat (m_pc m)) of Some st \<Rightarrow> st | None \<Rightarrow> empty_state) (m_heap m)
     = Inr (sig, st', H')"
    and st: "m_state m' = (m_state m)(nat (m_pc m) := Some st')"
    and log: "m_log m' = m_log m @ [(nat (m_pc m), sig)]"
    by (rule run_step_shape)
  show ?thesis
  proof (cases "nat (m_pc m) = pos")
    case False
    then have "emitted_at pos (m_log m') = emitted_at pos (m_log m)"
      by (cases sig) (simp_all add: log emitted_at_snoc)
    moreover have "m_state m' pos = m_state m pos" using False by (simp add: st)
    ultimately show ?thesis using inv by (simp add: unique_inv_def)
  next
    case True
    let ?st = "case m_state m pos of Some st \<Rightarrow> st | None \<Rightarrow> empty_state"
    have v: "visited_of (Some ?st) = visited_of (m_state m pos)"
      by (cases "m_state m pos") (simp_all add: visited_of_empty_state)
    have "unique_pipetype g (snd (program ! pos)) (m_maybeGremlin m) ?st (m_heap m) = Inr (sig, st', H')"
      using call True pos(2) by (simp add: getPipetype_def Pipetypes_def)
    from unique_call[OF this] True inv show ?thesis
      by (cases sig) (auto simp: unique_inv_def st log emitted_at_snoc v)
  qed
qed

lemma unique_inv_turns:
  assumes "pos < length program" "fst (program ! pos) = ''unique''" "unique_inv g pos m"
  shows "unique_inv g pos (snd (run_turns g program n m))"
  using assms(3)
proof (induction n arbitrary: m)
  case 0
  then show ?case by simp
next
  case (Suc n)
  show ?case
  proof (cases "run_step g program m")
    case (Inl e)
    then show ?thesis using Suc.prems by simp
  next
    case (Inr m')
    have "unique_inv g pos m'" using assms(1,2) Suc.prems Inr by (rule unique_inv_step)
    then show ?thesis using Suc.IH[of m'] Suc.prems Inr by simp
  qed
qed

lemma unique_inv_start: "unique_inv g pos (start q program)"
  by (simp add: unique_inv_def start_def emitted_at_def List.map_filter_def)

lemma run_loop_turns:
  assumes "run_loop g program m = Some r"
  shows "\<exists>n. run_turns g program n m = r"
proof (rule run_loop.raw_induct[where P = "\<lambda>g program m r. \<exists>n. run_turns g program n m = r", OF _ assms])
  fix loop :: "graph \<Rightarrow> program \<Rightarrow> machine \<Rightarrow> (error option \<times> machine) option"
    and g program m r
  assume IH: "\<And>g program m r. loop g program m = Some r \<Longrightarrow> \<exists>n. run_turns g program n m = r"
    and body: "(if m_done m < int (length program) - 1
                then case run_step g program m of Inl e \<Rightarrow> Some (Some e, m) | Inr m' \<Rightarrow> loop g program m'
                else Some (None, m)) = Some r"
  show "\<exists>n. run_turns g program n m = r"
  proof (cases "m_done m < int (length program) - 1")
    case False
    then have "run_turns g program 0 m = r" using body by simp
    then show ?thesis ..
  next
    case True
    show ?thesis
    proof (cases "run_step g program m")
      case (Inl e)
      then have "run_turns g program (Suc 0) m = r" using body True by simp
      then show ?thesis ..
    next
      case (Inr m')
      then have "loop g program m' = Some r" using body True by simp
      from IH[OF this] obtain n where "run_turns g program n m' = r" ..
      then have "run_turns g program (Suc n) m = r" using True Inr by simp
      then show ?thesis ..
    qed
  qed
qed

lemma unique_drops_visited:
  assumes "gremlin_id g gr \<in> visited_of (Some st)"
  shows "\<exists>st'. unique_pipetype g args (Some gr) st H = Inr (Pull, st', H) \<and> visited_of (Some st') = visited_of (Some st)"
  using assms
  by (auto simp: unique_pipetype_def Let_def visited_of_def gremlin_id_def split: option.splits)

text \<open>
  C8. For every graph, every program with \<^verbatim>\<open>unique\<close> at position \<open>pos\<close> and every
  query, after any number of turns of the engine the gremlins emitted from that position
  have pairwise different vertex ids, each of them in the stage's \<^verbatim>\<open>visited\<close> set; the
  same holds of a run that ends; and a gremlin that arrives with an id of that set gets
  \<^verbatim>\<open>'pull'\<close>.
\<close>

theorem unique_emits_each_id_once:
  assumes "pos < length program" and "fst (program ! pos) = ''unique''"
  shows "(let m = snd (run_turns g program n (start q program)) in
            distinct (map (gremlin_id g) (emitted_at pos (m_log m)))
            \<and> set (map (gremlin_id g) (emitted_at pos (m_log m))) \<subseteq> visited_of (m_state m pos))
       \<and> (run_loop g program (start q program) = Some (e, m') \<longrightarrow>
            distinct (map (gremlin_id g) (emitted_at pos (m_log m'))))
       \<and> (gremlin_id g gr \<in> visited_of (Some st) \<longrightarrow>
            (\<exists>st'. unique_pipetype g args (Some gr) st H = Inr (Pull, st', H)))"
proof (intro conjI impI)
  have inv: "unique_inv g pos (snd (run_turns g program k (start q program)))" for k
    using assms unique_inv_start by (rule unique_inv_turns)
  show "let m = snd (run_turns g program n (start q program)) in
            distinct (map (gremlin_id g) (emitted_at pos (m_log m)))
            \<and> set (map (gremlin_id g) (emitted_at pos (m_log m))) \<subseteq> visited_of (m_state m pos)"
    using inv[of n] by (simp add: unique_inv_def Let_def)
  show "distinct (map (gremlin_id g) (emitted_at pos (m_log m')))"
    if "run_loop g program (start q program) = Some (e, m')"
  proof -
    from run_loop_turns[OF that] obtain k where "run_turns g program k (start q program) = (e, m')" ..
    then show ?thesis using inv[of k] by (simp add: unique_inv_def)
  qed
  show "\<exists>st'. unique_pipetype g args (Some gr) st H = Inr (Pull, st', H)"
    if "gremlin_id g gr \<in> visited_of (Some st)"
    using unique_drops_visited[OF that] by blast
qed

lemma run_turns_numeral:
  "run_turns g program (numeral k) m =
     (if m_done m < int (length program) - 1
      then (case run_step g program m of
              Inl e \<Rightarrow> (Some e, m)
            | Inr m' \<Rightarrow> run_turns g program (pred_numeral k) m')
      else (None, m))"
  by (simp add: numeral_eq_Suc)

text \<open>
  \<^verbatim>\<open>g.v(1, 1).unique()\<close>: the \<^verbatim>\<open>vertex\<close> stage emits vertex 1 twice, the
  \<^verbatim>\<open>unique\<close> stage emits it once, and the query yields it once; the stage with id 1
  in its set answers a gremlin at vertex 1 with \<^verbatim>\<open>'pull'\<close>.
\<close>

theorem unique_emits_each_id_once_witness:
  "(1::nat) < length (q_program query_unique)
   \<and> fst (q_program query_unique ! 1) = ''unique''
   \<and> map (gremlin_id scenario_graph)
        (emitted_at 0 (m_log (snd (run_turns scenario_graph (q_program query_unique) 12
                                     (start query_unique (q_program query_unique))))))
       = [Num 1, Num 1]
   \<and> map (gremlin_id scenario_graph)
        (emitted_at 1 (m_log (snd (run_turns scenario_graph (q_program query_unique) 12
                                     (start query_unique (q_program query_unique))))))
       = [Num 1]
   \<and> observed (run initial_T query_unique) = Some ([VertexRef 0], None)
   \<and> unique_pipetype scenario_graph []
         (Some \<lparr> g_vertex = 0, g_state = 0, g_result = Prim Undefined \<rparr>)
         (empty_state\<lparr> st_visited := Some {Num 1} \<rparr>) [None]
       = Inr (Pull, empty_state\<lparr> st_visited := Some {Num 1} \<rparr>, [None])"
proof -
  let ?gr = "\<lparr> g_vertex = 0, g_state = 0, g_result = Prim Undefined \<rparr>"
  let ?st = "empty_state\<lparr> st_visited := Some {Num 1} \<rparr>"
  have a: "(1::nat) < length (q_program query_unique)" "fst (q_program query_unique ! 1) = ''unique''"
    by (simp_all add: query_unique_def add_def G_v_def Dagoba_query_def)
  have b: "observed (run initial_T query_unique) = Some ([VertexRef 0], None)"
    by (simp add: observed_def query_unique_def scenario_graph_eval engine_eval run_loop.simps)
  have c: "map (gremlin_id scenario_graph)
        (emitted_at 0 (m_log (snd (run_turns scenario_graph (q_program query_unique) 12
                                     (start query_unique (q_program query_unique))))))
       = [Num 1, Num 1]"
    "map (gremlin_id scenario_graph)
        (emitted_at 1 (m_log (snd (run_turns scenario_graph (q_program query_unique) 12
                                     (start query_unique (q_program query_unique))))))
       = [Num 1]"
    by (simp_all add: query_unique_def scenario_graph_eval engine_eval run_turns_numeral
          emitted_at_def gremlin_id_def)
  have d: "gremlin_id scenario_graph ?gr \<in> visited_of (Some ?st)"
    by (simp add: gremlin_id_def visited_of_def scenario_graph_eval)
  have e: "unique_pipetype scenario_graph [] (Some ?gr) ?st [None] = Inr (Pull, ?st, [None])"
    using unique_emits_each_id_once[OF a, where g = scenario_graph and gr = "?gr" and st = "?st"
            and n = 12 and q = query_unique and args = "[]" and H = "[None]"] d
    by (simp add: unique_pipetype_def scenario_graph_eval empty_state_def)
  from a b c e show ?thesis by simp
qed

end
